theory Spec2Isabelle
  imports Main
begin

section \<open>Values of the compiled language\<close>

text \<open>
  The compiler (\<^verbatim>\<open>src/vm/vm-compiler.ts\<close>) stores JavaScript values in its
  primitives table. The values that reach it are scalars and plain records. Numbers are
  modelled by the integers plus \<open>NaN\<close> (the one number that lodash's \<^verbatim>\<open>defaultTo\<close>
  treats like a missing value); a plain record is an association list in key order.
\<close>

datatype jsval =
    VUndefined
  | VNull
  | VNaN
  | VBool bool
  | VNum int
  | VStr string
  | VObj "(string \<times> jsval) list"

text \<open>\<^verbatim>\<open>_.defaultTo(value, d)\<close>: \<open>d\<close> when the value is \<open>NaN\<close>, \<open>null\<close> or \<open>undefined\<close>.\<close>

definition defaultTo :: "jsval \<Rightarrow> jsval \<Rightarrow> jsval" where
  "defaultTo v d = (if v = VUndefined \<or> v = VNull \<or> v = VNaN then d else v)"

text \<open>
  Neither the compiler nor the runtime template raises anything explicitly; what can fail
  is a property access on \<open>undefined\<close> or \<open>null\<close> and, in strict code, a write to a
  property of a primitive (a \<open>TypeError\<close> of the language), and setting the length of an
  array to something that is not a length (a \<open>RangeError\<close>). \<open>IntegrityError\<close> is the
  error kind that the specification names for a hash-table mismatch.
\<close>

datatype error = TypeError | RangeError | IntegrityError

section \<open>Hash-keyed tables\<close>

text \<open>
  \<^verbatim>\<open>primitivesByHash\<close>, \<^verbatim>\<open>metaDataByHash\<close>, \<^verbatim>\<open>projectionsByHash\<close> and
  \<^verbatim>\<open>pathByHash\<close> are plain objects used as dictionaries from hash strings to values.
  A table is the list of its own properties in insertion order; \<^verbatim>\<open>_.has\<close> is the
  own-property test, and \<^verbatim>\<open>tbl[hash] = v\<close> replaces the value of a present key in
  place and appends an absent one.
\<close>

type_synonym 'a table = "(string \<times> 'a) list"

definition has :: "'a table \<Rightarrow> string \<Rightarrow> bool" where
  "has tbl hash = (map_of tbl hash \<noteq> None)"

fun assign :: "'a table \<Rightarrow> string \<Rightarrow> 'a \<Rightarrow> 'a table" where
  "assign [] k v = [(k, v)]"
| "assign ((k', v') # tbl) k v = (if k' = k then (k, v) # tbl else (k', v') # assign tbl k v)"

section \<open>Tokens and expressions\<close>

text \<open>
  A \<^verbatim>\<open>Token\<close> carries its kind \<^verbatim>\<open>$type\<close>, the map \<^verbatim>\<open>$path\<close> from an invalidated
  path to the condition under which it invalidates (in insertion order, which is the
  order of \<^verbatim>\<open>Map.forEach\<close>), the flags \<^verbatim>\<open>$invalidates\<close> and \<^verbatim>\<open>$tracked\<close>, its
  \<^verbatim>\<open>$id\<close> and its source tag. An \<^verbatim>\<open>Expression\<close> is an array whose element 0 is a
  token and whose other elements are the arguments. Everything else that occurs as an
  argument or as a path step is a literal.
\<close>

datatype node = Lit jsval | Tok token | Expr token "node list"
and token = Token (ttype: string) (tpath: "(node list \<times> node) list") (tinvalidates: bool)
   (ttracked: bool) (tid: int) (tsource: "string option")

text \<open>The intermediate reference \<^verbatim>\<open>{ref, table}\<close>, one constructor per table.\<close>

datatype IntermediateReference = IntsRef int | PrimitivesRef string | ProjectionsRef string

text \<open>
  The metadata record that \<^verbatim>\<open>generateProjectionFromExpression\<close> builds has the key
  \<^verbatim>\<open>invalidates\<close> (always \<open>true\<close>) when the token invalidates, and always the key
  \<^verbatim>\<open>paths\<close>: the boolean field says whether the first key is there.
\<close>

record IntermediateMetaData =
  md_invalidates :: bool
  md_paths :: "(IntermediateReference \<times> IntermediateReference list) list"

record IntermediateProjection =
  p_type :: string
  p_args :: "IntermediateReference list"
  p_metaData :: string
  p_source :: jsval

text \<open>
  A setter expression is an array of steps; \<^verbatim>\<open>setterType()\<close> is a method of its
  class, which is declared outside the sources at hand, so its result is a field here.
\<close>

record SetterExpression =
  setterType :: jsval
  parts :: "node list"

text \<open>
  The compiler instance \<^verbatim>\<open>this\<close>: its getters, setters and options, together with
  the functions that the compiler imports from modules outside the sources at hand
  (\<^verbatim>\<open>exprHash\<close> from \<^verbatim>\<open>../expr-hash\<close>, at the four types of value it is applied to;
  \<^verbatim>\<open>pathMatches\<close> from \<^verbatim>\<open>../expr-tagging\<close>; \<^verbatim>\<open>canBeStoredInRef\<close>,
  \<^verbatim>\<open>packPrimitiveIndex\<close>, \<^verbatim>\<open>packProjectionIndex\<close> and \<^verbatim>\<open>InvalidatesFlag\<close> from
  \<^verbatim>\<open>./vm-rt\<close>; \<^verbatim>\<open>topLevelToIndex\<close>, \<^verbatim>\<open>shortSource\<close> and \<^verbatim>\<open>getRealGetters\<close> from
  the parent class). Every theorem below holds for all of them.
\<close>

record VMCompiler =
  exprHash :: "jsval \<Rightarrow> string"
  exprHashExpr :: "node \<Rightarrow> string"
  exprHashMeta :: "IntermediateMetaData \<Rightarrow> string"
  exprHashPath :: "int list \<Rightarrow> string"
  pathMatches :: "node list \<Rightarrow> SetterExpression \<Rightarrow> bool"
  topLevelToIndex :: "node \<Rightarrow> jsval"
  shortSource :: "string option \<Rightarrow> jsval"
  canBeStoredInRef :: "int \<Rightarrow> bool"
  packPrimitiveIndex :: "int \<Rightarrow> int"
  packProjectionIndex :: "int \<Rightarrow> int"
  InvalidatesFlag :: int
  this_getters :: "(string \<times> node) list"
  this_setters :: "(string \<times> SetterExpression) list"
  getRealGetters :: "string list"
  debug :: bool

text \<open>The three tables that \<^verbatim>\<open>buildProjectionData\<close> fills while it serializes.\<close>

record tables =
  projectionsByHash :: "IntermediateProjection table"
  primitivesByHash :: "jsval table"
  metaDataByHash :: "IntermediateMetaData table"

definition emptyTables :: tables where
  "emptyTables = \<lparr>projectionsByHash = [], primitivesByHash = [], metaDataByHash = []\<rparr>"

section \<open>Interning\<close>

text \<open>
  \<^verbatim>\<open>
  const addPrimitive = (p: any): string => {
    const hash = exprHash(_.defaultTo(p, null));
    if (!_.has(primitivesByHash, hash)) {
      primitivesByHash[hash] = p;
    }
    return hash;
  };
  \<close>
  and \<^verbatim>\<open>addMetaData\<close>, \<^verbatim>\<open>addPath\<close> alike, without the default. Each returns the hash
  and the updated state.
\<close>

definition addPrimitive :: "VMCompiler \<Rightarrow> jsval \<Rightarrow> tables \<Rightarrow> string \<times> tables" where
  "addPrimitive this p st =
     (let hash = exprHash this (defaultTo p VNull) in
      (hash,
       if \<not> has (primitivesByHash st) hash
       then st\<lparr>primitivesByHash := assign (primitivesByHash st) hash p\<rparr> else st))"

definition addMetaData :: "VMCompiler \<Rightarrow> IntermediateMetaData \<Rightarrow> tables \<Rightarrow> string \<times> tables" where
  "addMetaData this m st =
     (let mdHash = exprHashMeta this m in
      (mdHash,
       if \<not> has (metaDataByHash st) mdHash
       then st\<lparr>metaDataByHash := assign (metaDataByHash st) mdHash m\<rparr> else st))"

definition addPath :: "VMCompiler \<Rightarrow> int list \<Rightarrow> int list table \<Rightarrow> string \<times> int list table" where
  "addPath this path pathByHash =
     (let hash = exprHashPath this path in
      (hash, if \<not> has pathByHash hash then assign pathByHash hash path else pathByHash))"

section \<open>The projection builder\<close>

text \<open>
  The property read \<^verbatim>\<open>e.$type\<close>: the kind of a token, \<open>undefined\<close> on an expression
  (an array) and on a scalar, the field of a plain record, a \<open>TypeError\<close> on
  \<open>undefined\<close> and \<open>null\<close>. Reading an array past its end gives \<open>undefined\<close>.
\<close>

fun dollarType :: "node \<Rightarrow> error + jsval" where
  "dollarType (Tok t) = Inr (VStr (ttype t))"
| "dollarType (Expr t args) = Inr VUndefined"
| "dollarType (Lit VUndefined) = Inl TypeError"
| "dollarType (Lit VNull) = Inl TypeError"
| "dollarType (Lit (VObj kvs)) = Inr (case map_of kvs ''$type'' of None \<Rightarrow> VUndefined | Some v \<Rightarrow> v)"
| "dollarType (Lit v) = Inr VUndefined"

definition at :: "node list \<Rightarrow> nat \<Rightarrow> node" where
  "at xs i = (if i < length xs then xs ! i else Lit VUndefined)"

definition isType :: "node \<Rightarrow> string \<Rightarrow> error + bool" where
  "isType e ty = (case dollarType e of Inl err \<Rightarrow> Inl err | Inr v \<Rightarrow> Inr (v = VStr ty))"

text \<open>
  \<^verbatim>\<open>invalidatedPath[0] instanceof Expression && invalidatedPath[0][0].$type === "get"
     && invalidatedPath[0][2].$type === "topLevel"\<close>
\<close>

fun getTopLevelHead :: "node \<Rightarrow> error + bool" where
  "getTopLevelHead (Expr t args) =
     (if ttype t = ''get'' then isType (at (Tok t # args) 2) ''topLevel'' else Inr False)"
| "getTopLevelHead e = Inr False"

text \<open>
  \<^verbatim>\<open>Object.values(this.setters).filter(setter => pathMatches(invalidatedPath, setter)).length\<close>,
  as a condition.
\<close>

definition settersMatch :: "VMCompiler \<Rightarrow> node list \<Rightarrow> bool" where
  "settersMatch this invalidatedPath =
     (length (filter (\<lambda>setter. pathMatches this invalidatedPath setter)
                (map snd (this_setters this))) \<noteq> 0)"

text \<open>
  The body of the callback of \<^verbatim>\<open>pathsThatInvalidate.forEach\<close>, after the condition
  has been serialized: the steps that are serialized and pushed for this path (\<open>Some\<close>),
  or nothing (\<open>None\<close>), in the order of the \<^verbatim>\<open>if\<close> chain of the source.
\<close>

definition retainedPath :: "VMCompiler \<Rightarrow> node list \<Rightarrow> error + node list option" where
  "retainedPath this invalidatedPath =
    (case isType (at invalidatedPath 0) ''context'' of
       Inl err \<Rightarrow> Inl err
     | Inr True \<Rightarrow> Inr (Some (at invalidatedPath 0 # Lit (VNum 0) # drop 1 invalidatedPath))
     | Inr False \<Rightarrow>
        if length invalidatedPath > 1 \<and> isType (at invalidatedPath 0) ''topLevel'' = Inr True
        then Inr (Some (at invalidatedPath 0 # Lit (topLevelToIndex this (at invalidatedPath 1))
                         # drop 2 invalidatedPath))
        else (case (if length invalidatedPath > 1 then getTopLevelHead (at invalidatedPath 0)
                    else Inr False) of
                Inl err \<Rightarrow> Inl err
              | Inr True \<Rightarrow> Inr (Some invalidatedPath)
              | Inr False \<Rightarrow>
                  if isType (at invalidatedPath 0) ''root'' = Inr True \<and> length invalidatedPath > 1
                     \<and> settersMatch this invalidatedPath
                  then Inr (Some invalidatedPath) else Inr None))"

text \<open>
  \<^verbatim>\<open>currentToken\<close> and \<^verbatim>\<open>expressionArgs\<close>. A value that is neither a token nor an
  expression has no element 0, and reading \<^verbatim>\<open>currentToken.$type\<close> fails.
\<close>

definition headToken :: "node \<Rightarrow> token option" where
  "headToken expression =
     (case expression of Tok t \<Rightarrow> Some t | Expr t args \<Rightarrow> Some t | Lit v \<Rightarrow> None)"

definition expressionArgs :: "node \<Rightarrow> node list" where
  "expressionArgs expression = (case expression of Expr t args \<Rightarrow> args | _ \<Rightarrow> [])"

definition elements :: "node \<Rightarrow> node list" where
  "elements expression = (case expression of Expr t args \<Rightarrow> Tok t # args | _ \<Rightarrow> [])"

definition prependID :: "token \<Rightarrow> node list \<Rightarrow> node list" where
  "prependID currentToken args =
     Lit (VNum (if ttracked currentToken then tid currentToken else - 1)) # args"

text \<open>The property read \<^verbatim>\<open>nextToken[SourceTag]\<close>.\<close>

fun sourceTag :: "node \<Rightarrow> error + string option" where
  "sourceTag (Tok t) = Inr (tsource t)"
| "sourceTag (Lit VUndefined) = Inl TypeError"
| "sourceTag (Lit VNull) = Inl TypeError"
| "sourceTag e = Inr None"

definition trace :: "VMCompiler \<Rightarrow> node \<Rightarrow> token \<Rightarrow> node list \<Rightarrow> error + node list" where
  "trace this expression currentToken args =
     (let inner = (if length args = 2 then at (elements expression) 1 else at (elements expression) 0);
          nextToken = (case inner of Expr t xs \<Rightarrow> Tok t | _ \<Rightarrow> inner)
      in case sourceTag nextToken of
           Inl err \<Rightarrow> Inl err
         | Inr tag \<Rightarrow>
            (let innerSrc = shortSource this
                   (if tag \<noteq> None \<and> tag \<noteq> Some [] then tag else tsource currentToken)
             in case dollarType nextToken of
                  Inl err \<Rightarrow> Inl err
                | Inr ty \<Rightarrow> Inr [at args 0, Lit ty, Lit innerSrc]))"

text \<open>\<^verbatim>\<open>obj instanceof Token && obj.$type === "topLevel"\<close>\<close>

definition isTopLevelToken :: "node \<Rightarrow> bool" where
  "isTopLevelToken obj = (case obj of Tok t \<Rightarrow> ttype t = ''topLevel'' | _ \<Rightarrow> False)"

definition defaultToNode :: "node \<Rightarrow> jsval \<Rightarrow> node" where
  "defaultToNode e d = (case e of Lit v \<Rightarrow> Lit (defaultTo v d) | _ \<Rightarrow> e)"

text \<open>
  \<^verbatim>\<open>(argsManipulators[$type] || _.identity)(expressionArgs)\<close>, with the table written
  as the chain of its keys: \<^verbatim>\<open>get\<close>, \<^verbatim>\<open>trace\<close>, \<^verbatim>\<open>and\<close>, \<^verbatim>\<open>or\<close>,
  \<^verbatim>\<open>ternary\<close>, \<^verbatim>\<open>range\<close>. A destructured argument that is missing is \<open>undefined\<close>.
\<close>

definition argsManipulators :: "VMCompiler \<Rightarrow> node \<Rightarrow> token \<Rightarrow> node list \<Rightarrow> error + node list" where
  "argsManipulators this expression currentToken args =
     (let ty = ttype currentToken in
      if ty = ''get'' then
        (let prop = at args 0; obj = at args 1 in
         Inr [obj, if isTopLevelToken obj then Lit (topLevelToIndex this prop) else prop])
      else if ty = ''trace'' then trace this expression currentToken args
      else if ty = ''and'' \<or> ty = ''or'' \<or> ty = ''ternary'' then Inr (prependID currentToken args)
      else if ty = ''range'' then
        Inr [at args 0, defaultToNode (at args 1) (VNum 0), defaultToNode (at args 2) (VNum 1)]
      else Inr args)"

subsection \<open>A measure for the recursion\<close>

text \<open>
  The builder recurses into arguments and path steps after rewriting them, and the
  rewriting only drops steps or puts literals in. The weight below counts tokens and
  expressions, not literals, so no rewriting increases it.
\<close>

primrec wnode :: "node \<Rightarrow> nat" and wtok :: "token \<Rightarrow> nat" where
  "wnode (Lit v) = 0"
| "wnode (Tok t) = Suc (wtok t)"
| "wnode (Expr t ns) = Suc (wtok t + sum_list (map wnode ns))"
| "wtok (Token ty ps i tr d s) =
     Suc (sum_list (map (\<lambda>pc. Suc (sum_list (fst pc) + snd pc)) (map (map_prod (map wnode) wnode) ps)))"

abbreviation wlist :: "node list \<Rightarrow> nat" where
  "wlist ns \<equiv> sum_list (map wnode ns)"


definition wpaths :: "(node list \<times> node) list \<Rightarrow> nat" where
  "wpaths ps = sum_list (map (\<lambda>pc. Suc (wlist (fst pc) + wnode (snd pc))) ps)"

lemma wtok_tpath: "wtok t = Suc (wpaths (tpath t))"
  by (cases t) (simp add: wpaths_def comp_def)

lemma wnode_at: "wnode (at xs i) \<le> wlist xs"
  by (simp add: at_def member_le_sum_list)

lemma wlist_drop: "wlist (drop n xs) \<le> wlist xs"
  by (induction xs arbitrary: n) (auto simp: drop_Cons split: nat.splits intro: trans_le_add2)

lemma wlist_head_drop1: "wnode (at xs 0) + wlist (drop 1 xs) \<le> wlist xs"
  by (cases xs) (simp_all add: at_def)

lemma wlist_head_drop2: "wnode (at xs 0) + wlist (drop 2 xs) \<le> wlist xs"
proof (cases xs)
  case Nil
  then show ?thesis by (simp add: at_def)
next
  case (Cons x ys)
  have "wlist (drop 1 ys) \<le> wlist ys" by (rule wlist_drop)
  with Cons show ?thesis by (simp add: at_def drop_Cons split: nat.splits)
qed

lemma wlist_retainedPath:
  "retainedPath this p = Inr (Some steps) \<Longrightarrow> wlist steps \<le> wlist p"
  using wlist_head_drop1 [of p] wlist_head_drop2 [of p]
  by (auto simp: retainedPath_def split: sum.splits bool.splits if_splits)

lemma wlist_trace:
  "trace this expression currentToken args = Inr margs \<Longrightarrow> wlist margs \<le> wlist args"
  using wnode_at [of args 0]
  by (auto simp: trace_def Let_def split: sum.splits)

lemma wnode_defaultToNode: "wnode (defaultToNode e d) \<le> wnode e"
  by (cases e) (simp_all add: defaultToNode_def)

lemma wlist_range:
  "wnode (at args 0) + (wnode (defaultToNode (at args 1) a) + wnode (defaultToNode (at args 2) b))
     \<le> wlist args"
proof -
  have *: "wnode (at args 0) + (wnode (at args 1) + wnode (at args 2)) \<le> wlist args"
  proof (cases args)
    case Nil
    then show ?thesis by (simp add: at_def)
  next
    case (Cons x xs)
    note c1 = Cons
    show ?thesis
    proof (cases xs)
      case Nil
      with c1 show ?thesis by (simp add: at_def)
    next
      case (Cons y ys)
      have "wnode (at ys 0) \<le> wlist ys" by (rule wnode_at)
      moreover have "at args 2 = at ys 0" using c1 Cons by (simp add: at_def)
      ultimately show ?thesis using c1 Cons by (simp add: at_def)
    qed
  qed
  have "wnode (defaultToNode (at args 1) a) \<le> wnode (at args 1)"
       "wnode (defaultToNode (at args 2) b) \<le> wnode (at args 2)"
    by (rule wnode_defaultToNode)+
  with * show ?thesis by linarith
qed

lemma wlist_get: "wnode (at args 1) + wnode (at args 0) \<le> wlist args"
proof (cases args)
  case Nil
  then show ?thesis by (simp add: at_def)
next
  case (Cons x xs)
  have "wnode (at xs 0) \<le> wlist xs" by (rule wnode_at)
  moreover have "at args 1 = at xs 0" using Cons by (simp add: at_def)
  ultimately show ?thesis using Cons by (simp add: at_def)
qed

lemma wlist_argsManipulators:
  "argsManipulators this expression currentToken args = Inr margs \<Longrightarrow> wlist margs \<le> wlist args"
  using wlist_get [of args] wlist_range [of args "VNum 0" "VNum 1"] wnode_at [of args 1]
  by (auto simp: argsManipulators_def Let_def prependID_def dest: wlist_trace split: if_splits)

lemma wnode_headToken:
  "headToken expression = Some t \<Longrightarrow>
     wnode expression = Suc (Suc (wpaths (tpath t) + wlist (expressionArgs expression)))"
  by (cases expression) (simp_all add: headToken_def expressionArgs_def wtok_tpath)

lemma wpaths_Cons: "wpaths (entry # rest) = Suc (wlist (fst entry) + wnode (snd entry) + wpaths rest)"
  by (simp add: wpaths_def)

subsection \<open>Serialization\<close>

text \<open>
  \<^verbatim>\<open>serializeProjection\<close> and \<^verbatim>\<open>generateProjectionFromExpression\<close> call each other;
  \<open>serializeAll\<close> is \<^verbatim>\<open>.map(serializeProjection)\<close> and \<open>forEachPath\<close> is the loop
  \<^verbatim>\<open>pathsThatInvalidate.forEach\<close>, whose result is the array \<^verbatim>\<open>paths\<close>. Each
  takes the tables and returns them updated, or the error that was thrown.
  In \<^verbatim>\<open>serializeProjection\<close> the first test is
  \<^verbatim>\<open>_.isInteger(expression) && rt.canBeStoredInRef(expression)\<close>, the second sends every
  other literal to the primitives, and the projection is stored under its hash after it
  has been generated.
\<close>

function serializeProjection ::
    "VMCompiler \<Rightarrow> node \<Rightarrow> tables \<Rightarrow> error + IntermediateReference \<times> tables"
  and generateProjectionFromExpression ::
    "VMCompiler \<Rightarrow> node \<Rightarrow> tables \<Rightarrow> error + IntermediateProjection \<times> tables"
  and serializeAll ::
    "VMCompiler \<Rightarrow> node list \<Rightarrow> tables \<Rightarrow> error + IntermediateReference list \<times> tables"
  and forEachPath ::
    "VMCompiler \<Rightarrow> (node list \<times> node) list \<Rightarrow> tables
       \<Rightarrow> error + (IntermediateReference \<times> IntermediateReference list) list \<times> tables"
where
  "serializeProjection this expression st =
     (case expression of
        Lit v \<Rightarrow>
          (if (case v of VNum n \<Rightarrow> canBeStoredInRef this n | _ \<Rightarrow> False)
           then Inr (IntsRef (case v of VNum n \<Rightarrow> n | _ \<Rightarrow> 0), st)
           else (case addPrimitive this v st of (hash, st') \<Rightarrow> Inr (PrimitivesRef hash, st')))
      | _ \<Rightarrow>
          (let hash = exprHashExpr this expression in
           if \<not> has (projectionsByHash st) hash
           then (case generateProjectionFromExpression this expression st of
                   Inl err \<Rightarrow> Inl err
                 | Inr (p, st') \<Rightarrow>
                     Inr (ProjectionsRef hash,
                          st'\<lparr>projectionsByHash := assign (projectionsByHash st') hash p\<rparr>))
           else Inr (ProjectionsRef hash, st)))"
| "generateProjectionFromExpression this expression st =
     (case headToken expression of
        None \<Rightarrow> Inl TypeError
      | Some currentToken \<Rightarrow>
         (case forEachPath this (tpath currentToken) st of
            Inl err \<Rightarrow> Inl err
          | Inr (paths, st1) \<Rightarrow>
             (case addPrimitive this (VStr (ttype currentToken)) st1 of
                (type, st2) \<Rightarrow>
             (case addMetaData this
                     \<lparr>md_invalidates = tinvalidates currentToken, md_paths = paths\<rparr> st2 of
                (metaData, st3) \<Rightarrow>
             (case argsManipulators this expression currentToken (expressionArgs expression) of
                Inl err \<Rightarrow> Inl err
              | Inr margs \<Rightarrow>
                 (case serializeAll this margs st3 of
                    Inl err \<Rightarrow> Inl err
                  | Inr (args, st4) \<Rightarrow>
                     Inr (\<lparr>p_type = type, p_args = args, p_metaData = metaData,
                           p_source = (if debug this then shortSource this (tsource currentToken)
                                       else VNull)\<rparr>, st4)))))))"
| "serializeAll this [] st = Inr ([], st)"
| "serializeAll this (e # es) st =
     (case serializeProjection this e st of
        Inl err \<Rightarrow> Inl err
      | Inr (r, st') \<Rightarrow>
         (case serializeAll this es st' of
            Inl err \<Rightarrow> Inl err
          | Inr (rs, st'') \<Rightarrow> Inr (r # rs, st'')))"
| "forEachPath this [] st = Inr ([], st)"
| "forEachPath this (entry # rest) st =
     (case serializeProjection this (snd entry) st of
        Inl err \<Rightarrow> Inl err
      | Inr (condProj, st1) \<Rightarrow>
         (case retainedPath this (fst entry) of
            Inl err \<Rightarrow> Inl err
          | Inr None \<Rightarrow> forEachPath this rest st1
          | Inr (Some steps) \<Rightarrow>
             (case serializeAll this steps st1 of
                Inl err \<Rightarrow> Inl err
              | Inr (stepRefs, st2) \<Rightarrow>
                 (case forEachPath this rest st2 of
                    Inl err \<Rightarrow> Inl err
                  | Inr (paths, st3) \<Rightarrow> Inr ((condProj, stepRefs) # paths, st3)))))"
  by pat_completeness auto
termination
  apply (relation "inv_image (less_than <*lex*> less_than)
     (\<lambda>x. case x of
        Inl (Inl (this, e, st)) \<Rightarrow> (2 * wnode e + 1, 0)
      | Inl (Inr (this, e, st)) \<Rightarrow> (2 * wnode e, 0)
      | Inr (Inl (this, es, st)) \<Rightarrow> (2 * wlist es + 2, length es)
      | Inr (Inr (this, ps, st)) \<Rightarrow> (2 * wpaths ps + 1, 0))")
  apply (simp_all add: wnode_headToken wpaths_Cons)
  apply (auto dest: wlist_argsManipulators wlist_retainedPath)
  done

declare serializeProjection.simps [simp del] generateProjectionFromExpression.simps [simp del]

text \<open>What a successful call of \<^verbatim>\<open>generateProjectionFromExpression\<close> went through.\<close>

lemma generate_Inr:
  assumes "generateProjectionFromExpression this e st = Inr (p, st')"
  obtains tok paths st1 ty st2 mdh st3 margs args where
    "headToken e = Some tok"
    "forEachPath this (tpath tok) st = Inr (paths, st1)"
    "addPrimitive this (VStr (ttype tok)) st1 = (ty, st2)"
    "addMetaData this \<lparr>md_invalidates = tinvalidates tok, md_paths = paths\<rparr> st2 = (mdh, st3)"
    "argsManipulators this e tok (expressionArgs e) = Inr margs"
    "serializeAll this margs st3 = Inr (args, st')"
    "p = \<lparr>p_type = ty, p_args = args, p_metaData = mdh,
          p_source = (if debug this then shortSource this (tsource tok) else VNull)\<rparr>"
proof -
  note g = assms [unfolded generateProjectionFromExpression.simps [of this e st]]
  from g obtain tok where tok: "headToken e = Some tok"
    by (auto split: option.splits)
  from g tok obtain paths st1 where fe: "forEachPath this (tpath tok) st = Inr (paths, st1)"
    by (auto split: sum.splits)
  obtain ty st2 where ap: "addPrimitive this (VStr (ttype tok)) st1 = (ty, st2)"
    by (cases "addPrimitive this (VStr (ttype tok)) st1")
  obtain mdh st3 where
    am: "addMetaData this \<lparr>md_invalidates = tinvalidates tok, md_paths = paths\<rparr> st2 = (mdh, st3)"
    by (cases "addMetaData this \<lparr>md_invalidates = tinvalidates tok, md_paths = paths\<rparr> st2")
  from g tok fe ap am obtain margs where
    ma: "argsManipulators this e tok (expressionArgs e) = Inr margs"
    by (auto split: sum.splits)
  from g tok fe ap am ma obtain args where
    sa: "serializeAll this margs st3 = Inr (args, st')"
    and p: "p = \<lparr>p_type = ty, p_args = args, p_metaData = mdh,
          p_source = (if debug this then shortSource this (tsource tok) else VNull)\<rparr>"
    by (auto split: sum.splits)
  from tok fe ap am ma sa p show thesis by (rule that)
qed

section \<open>The setter compiler and the top-level list\<close>

text \<open>Decimal notation, for the template literal \<^verbatim>\<open>`arg${numTokens - 1}`\<close>.\<close>

function showNat :: "nat \<Rightarrow> string" where
  "showNat n = (if n < 10 then [''0123456789'' ! n] else showNat (n div 10) @ [''0123456789'' ! (n mod 10)])"
  by pat_completeness auto
termination
  by (relation "measure id") auto

definition showInt :: "int \<Rightarrow> string" where
  "showInt i = (if i < 0 then CHR ''-'' # showNat (nat (- i)) else showNat (nat i))"

definition isToken :: "node \<Rightarrow> bool" where
  "isToken e = (case e of Tok t \<Rightarrow> True | _ \<Rightarrow> False)"

definition isKeyToken :: "node \<Rightarrow> bool" where
  "isKeyToken e = (case e of Tok t \<Rightarrow> ttype t = ''key'' | _ \<Rightarrow> False)"

text \<open>\<^verbatim>\<open>new Token(type, "")\<close>: a token of that kind with an empty source tag.\<close>

definition newToken :: "string \<Rightarrow> node" where
  "newToken ty = Tok (Token ty [] False False 0 (Some []))"

text \<open>
  \<^verbatim>\<open>serializeSetter(setter, name)\<close> returns
  \<^verbatim>\<open>[addPrimitive(setterType), addPrimitive(name), setterProjection, numTokens]\<close>.
\<close>

type_synonym IntermediateSetter = "string \<times> string \<times> IntermediateReference list \<times> int"

definition serializeSetter ::
    "VMCompiler \<Rightarrow> SetterExpression \<Rightarrow> string \<Rightarrow> tables \<Rightarrow> error + IntermediateSetter \<times> tables" where
  "serializeSetter this setter name st =
     (let numTokens = int (length (filter isToken (parts setter))) - 1 in
      case serializeAll this
             (map (\<lambda>token. if isKeyToken token then newToken (''arg'' @ showInt (numTokens - 1))
                             else token)
                  (drop 1 (parts setter))) st of
        Inl err \<Rightarrow> Inl err
      | Inr (setterProjection, st1) \<Rightarrow>
         (case addPrimitive this (setterType setter) st1 of
            (typeHash, st2) \<Rightarrow>
         (case addPrimitive this (VStr name) st2 of
            (nameHash, st3) \<Rightarrow>
              Inr ((typeHash, nameHash, setterProjection, numTokens), st3))))"

text \<open>\<^verbatim>\<open>_.map(this.setters, serializeSetter)\<close>, the setters in their order of enumeration.\<close>

fun intermediateSetters ::
    "VMCompiler \<Rightarrow> (string \<times> SetterExpression) list \<Rightarrow> tables
       \<Rightarrow> error + IntermediateSetter list \<times> tables" where
  "intermediateSetters this [] st = Inr ([], st)"
| "intermediateSetters this (entry # rest) st =
     (case serializeSetter this (snd entry) (fst entry) st of
        Inl err \<Rightarrow> Inl err
      | Inr (s, st1) \<Rightarrow>
         (case intermediateSetters this rest st1 of
            Inl err \<Rightarrow> Inl err
          | Inr (ss, st2) \<Rightarrow> Inr (s # ss, st2)))"

text \<open>
  \<^verbatim>\<open>
  astGetters.map(name => {
    const proj = serializeProjection(this.getters[name])
    return {name: (this.options.debug || name[0] !== '$') ? addPrimitive(name) : null,
            hash: proj.ref}
  })
  \<close>
\<close>

fun intermediateTopLevels ::
    "VMCompiler \<Rightarrow> string list \<Rightarrow> tables
       \<Rightarrow> error + (string option \<times> IntermediateReference) list \<times> tables" where
  "intermediateTopLevels this [] st = Inr ([], st)"
| "intermediateTopLevels this (name # rest) st =
     (case serializeProjection this
             (case map_of (this_getters this) name of None \<Rightarrow> Lit VUndefined | Some e \<Rightarrow> e) st of
        Inl err \<Rightarrow> Inl err
      | Inr (proj, st1) \<Rightarrow>
         (case (if debug this \<or> take 1 name \<noteq> ''$''
                then (case addPrimitive this (VStr name) st1 of (h, st2) \<Rightarrow> (Some h, st2))
                else (None, st1)) of
            (nm, st2) \<Rightarrow>
         (case intermediateTopLevels this rest st2 of
            Inl err \<Rightarrow> Inl err
          | Inr (tops, st3) \<Rightarrow> Inr ((nm, proj) # tops, st3))))"

section \<open>The packer\<close>

text \<open>
  \<^verbatim>\<open>Object.keys\<close> lists the keys that are array indices first, in ascending numeric
  order, and then the other keys in insertion order. An array index is the canonical
  decimal notation of an integer below \<open>2\<^sup>3\<^sup>2 - 1\<close>.
\<close>

definition isDigit :: "char \<Rightarrow> bool" where
  "isDigit c = (48 \<le> (of_char c :: nat) \<and> (of_char c :: nat) \<le> 57)"

definition numericValue :: "string \<Rightarrow> nat" where
  "numericValue s = foldl (\<lambda>a c. 10 * a + ((of_char c :: nat) - 48)) 0 s"

definition isArrayIndex :: "string \<Rightarrow> bool" where
  "isArrayIndex s =
     (s \<noteq> [] \<and> list_all isDigit s \<and> (s = ''0'' \<or> take 1 s \<noteq> ''0'')
      \<and> int (numericValue s) < 4294967295)"

definition objectEntries :: "'a table \<Rightarrow> (string \<times> 'a) list" where
  "objectEntries tbl =
     sort_key (\<lambda>kv. numericValue (fst kv)) (filter (\<lambda>kv. isArrayIndex (fst kv)) tbl)
       @ filter (\<lambda>kv. \<not> isArrayIndex (fst kv)) tbl"

definition objectKeys :: "'a table \<Rightarrow> string list" where
  "objectKeys tbl = map fst (objectEntries tbl)"

text \<open>\<^verbatim>\<open>Array.prototype.indexOf\<close>: the first position of the element, or \<open>-1\<close>.\<close>

fun indexOf :: "string list \<Rightarrow> string \<Rightarrow> int" where
  "indexOf [] x = - 1"
| "indexOf (y # ys) x =
     (if y = x then 0 else (let i = indexOf ys x in if i < 0 then - 1 else i + 1))"

definition packRef :: "VMCompiler \<Rightarrow> string list \<Rightarrow> string list \<Rightarrow> IntermediateReference \<Rightarrow> int" where
  "packRef this primitiveHashes projectionHashes r =
     (case r of
        IntsRef n \<Rightarrow> n
      | PrimitivesRef h \<Rightarrow> packPrimitiveIndex this (indexOf primitiveHashes h)
      | ProjectionsRef h \<Rightarrow> packProjectionIndex this (indexOf projectionHashes h))"

text \<open>
  \<^verbatim>\<open>
  const packProjection = (p) => [
    primitiveHashes.indexOf(p.type || ""),
    p.metaData ? mdHashes.indexOf(p.metaData) : 0,
    ...(p.args || []).map(packRef)
  ];
  \<close>
  A string is falsy exactly when it is empty.
\<close>

definition packProjection ::
    "VMCompiler \<Rightarrow> string list \<Rightarrow> string list \<Rightarrow> string list \<Rightarrow> IntermediateProjection \<Rightarrow> int list" where
  "packProjection this primitiveHashes projectionHashes mdHashes p =
     indexOf primitiveHashes (p_type p)
       # (if p_metaData p \<noteq> [] then indexOf mdHashes (p_metaData p) else 0)
       # map (packRef this primitiveHashes projectionHashes) (p_args p)"

text \<open>
  \<^verbatim>\<open>packMetaData\<close> interns the packed paths of a record into \<^verbatim>\<open>pathByHash\<close>, one
  after the other, and returns the flags and the hashes of the paths.
\<close>

fun addPaths ::
    "VMCompiler \<Rightarrow> int list list \<Rightarrow> int list table \<Rightarrow> string list \<times> int list table" where
  "addPaths this [] pathByHash = ([], pathByHash)"
| "addPaths this (path # rest) pathByHash =
     (case addPath this path pathByHash of
        (hash, tbl1) \<Rightarrow>
          (case addPaths this rest tbl1 of (hashes, tbl2) \<Rightarrow> (hash # hashes, tbl2)))"

definition packMetaData ::
    "VMCompiler \<Rightarrow> string list \<Rightarrow> string list \<Rightarrow> IntermediateMetaData \<Rightarrow> int list table
       \<Rightarrow> (int \<times> string list) \<times> int list table" where
  "packMetaData this primitiveHashes projectionHashes md pathByHash =
     (case addPaths this
             (map (\<lambda>cp. packRef this primitiveHashes projectionHashes (fst cp)
                          # map (packRef this primitiveHashes projectionHashes) (snd cp))
                  (md_paths md)) pathByHash of
        (hashes, tbl) \<Rightarrow> ((if md_invalidates md then InvalidatesFlag this else 0, hashes), tbl))"

fun packAllMetaData ::
    "VMCompiler \<Rightarrow> string list \<Rightarrow> string list \<Rightarrow> IntermediateMetaData list \<Rightarrow> int list table
       \<Rightarrow> (int \<times> string list) list \<times> int list table" where
  "packAllMetaData this primitiveHashes projectionHashes [] pathByHash = ([], pathByHash)"
| "packAllMetaData this primitiveHashes projectionHashes (md # rest) pathByHash =
     (case packMetaData this primitiveHashes projectionHashes md pathByHash of
        (packed, tbl1) \<Rightarrow>
          (case packAllMetaData this primitiveHashes projectionHashes rest tbl1 of
             (others, tbl2) \<Rightarrow> (packed # others, tbl2)))"

text \<open>Truthiness of a value (for \<^verbatim>\<open>source || null\<close>).\<close>

definition truthy :: "jsval \<Rightarrow> bool" where
  "truthy v = (v \<noteq> VUndefined \<and> v \<noteq> VNull \<and> v \<noteq> VNaN \<and> v \<noteq> VBool False \<and> v \<noteq> VNum 0 \<and> v \<noteq> VStr [])"

record ProjectionData =
  getters :: "int list list"
  primitives :: "jsval list"
  topLevelNames :: "int list"
  topLevelProjections :: "int list"
  metaData :: "int list list"
  paths :: "int list list"
  setters :: "int list list"
  sources :: "jsval list"

text \<open>
  The second half of \<^verbatim>\<open>buildProjectionData\<close>, from \<^verbatim>\<open>projectionHashes\<close> on. The
  tables are read through their keys: \<^verbatim>\<open>hashes.map(hash => tbl[hash])\<close> is the list of
  the values in key order. \<^verbatim>\<open>mdHashes\<close> is the empty string followed by the keys of
  the metadata table, and \<^verbatim>\<open>metaData2\<close> has the pair \<open>(0, [])\<close> at index 0 and the
  packed record of each key after it. A top-level reference into the integers is a
  number, which \<^verbatim>\<open>indexOf\<close> does not find among the hashes.
\<close>

definition pack ::
    "VMCompiler \<Rightarrow> tables \<Rightarrow> (string option \<times> IntermediateReference) list
       \<Rightarrow> IntermediateSetter list \<Rightarrow> ProjectionData" where
  "pack this st tops isetters =
     (let projectionHashes = objectKeys (projectionsByHash st);
          sources = (if debug this
                     then map (\<lambda>kv. if truthy (p_source (snd kv)) then p_source (snd kv) else VNull)
                              (objectEntries (projectionsByHash st))
                     else []);
          primitiveHashes = objectKeys (primitivesByHash st);
          mdHashes = [] # objectKeys (metaDataByHash st);
          getters = map (\<lambda>kv. packProjection this primitiveHashes projectionHashes mdHashes (snd kv))
                        (objectEntries (projectionsByHash st));
          primitives = map snd (objectEntries (primitivesByHash st))
      in case packAllMetaData this primitiveHashes projectionHashes
                (map snd (objectEntries (metaDataByHash st))) [] of
           (packed, pathByHash) \<Rightarrow>
             (let metaData2 = (0, []) # packed;
                  pathHashes = objectKeys pathByHash
              in \<lparr>getters = getters,
                  primitives = primitives,
                  topLevelNames =
                    map (\<lambda>top. case fst top of
                                  Some name \<Rightarrow> if name \<noteq> [] then indexOf primitiveHashes name else - 1
                                | None \<Rightarrow> - 1) tops,
                  topLevelProjections =
                    map (\<lambda>top. case snd top of
                                  IntsRef n \<Rightarrow> - 1
                                | PrimitivesRef h \<Rightarrow> indexOf projectionHashes h
                                | ProjectionsRef h \<Rightarrow> indexOf projectionHashes h) tops,
                  metaData = map (\<lambda>fp. fst fp # map (indexOf pathHashes) (snd fp)) metaData2,
                  paths = map snd (objectEntries pathByHash),
                  setters =
                    map (\<lambda>s. case s of (typeHash, nameHash, projection, numTokens) \<Rightarrow>
                               indexOf primitiveHashes typeHash # indexOf primitiveHashes nameHash
                                 # numTokens
                                 # map (packRef this primitiveHashes projectionHashes) projection)
                        isetters,
                  sources = sources\<rparr>))"

definition buildProjectionData :: "VMCompiler \<Rightarrow> error + ProjectionData" where
  "buildProjectionData this =
     (case intermediateTopLevels this (getRealGetters this) emptyTables of
        Inl err \<Rightarrow> Inl err
      | Inr (tops, st1) \<Rightarrow>
         (case intermediateSetters this (this_setters this) st1 of
            Inl err \<Rightarrow> Inl err
          | Inr (isetters, st2) \<Rightarrow> Inr (pack this st2 tops isetters)))"

section \<open>A sample compiler instance\<close>

text \<open>
  Concrete evaluations need concrete values for the imported functions. The sample
  hashes write a value out in a readable notation (all plain records share one hash, and
  a token's hash is its kind); the sample \<open>pathMatches\<close> compares a path with the steps
  of a setter position by position, as far as both go; the sample packing adds a tag
  above the 24 low bits. None of the general theorems depends on these choices.
\<close>

fun sampleHash :: "jsval \<Rightarrow> string" where
  "sampleHash VUndefined = ''undefined''"
| "sampleHash VNull = ''null''"
| "sampleHash VNaN = ''NaN''"
| "sampleHash (VBool b) = (if b then ''true'' else ''false'')"
| "sampleHash (VNum n) = CHR ''#'' # showInt n"
| "sampleHash (VStr s) = CHR ''$'' # s"
| "sampleHash (VObj kvs) = ''{}''"

primrec sampleExprHash :: "node \<Rightarrow> string" and sampleTokenHash :: "token \<Rightarrow> string" where
  "sampleExprHash (Lit v) = sampleHash v"
| "sampleExprHash (Tok t) = sampleTokenHash t"
| "sampleExprHash (Expr t es) =
     ''('' @ sampleTokenHash t @ concat (map (\<lambda>h. CHR '' '' # h) (map sampleExprHash es)) @ '')''"
| "sampleTokenHash (Token ty ps invalidates tracked i src) = CHR ''*'' # ty"

fun sampleRefHash :: "IntermediateReference \<Rightarrow> string" where
  "sampleRefHash (IntsRef n) = CHR ''i'' # showInt n"
| "sampleRefHash (PrimitivesRef h) = ''p<'' @ h @ ''>''"
| "sampleRefHash (ProjectionsRef h) = ''e<'' @ h @ ''>''"

definition sampleMetaHash :: "IntermediateMetaData \<Rightarrow> string" where
  "sampleMetaHash m =
     (if md_invalidates m then ''md!'' else ''md'')
       @ concat (map (\<lambda>cp. ''['' @ sampleRefHash (fst cp) @ '':''
                            @ concat (map sampleRefHash (snd cp)) @ '']'') (md_paths m))"

definition samplePathHash :: "int list \<Rightarrow> string" where
  "samplePathHash path = ''path'' @ concat (map (\<lambda>n. CHR '','' # showInt n) path)"

definition samplePathMatches :: "node list \<Rightarrow> SetterExpression \<Rightarrow> bool" where
  "samplePathMatches path setter =
     list_all (\<lambda>ab. sampleExprHash (fst ab) = sampleExprHash (snd ab)) (zip path (parts setter))"

definition sampleCompiler ::
    "(string \<times> node) list \<Rightarrow> (string \<times> SetterExpression) list \<Rightarrow> bool \<Rightarrow> VMCompiler" where
  "sampleCompiler gs ss dbg =
     \<lparr>exprHash = sampleHash,
      exprHashExpr = sampleExprHash,
      exprHashMeta = sampleMetaHash,
      exprHashPath = samplePathHash,
      pathMatches = samplePathMatches,
      topLevelToIndex = (\<lambda>e. case e of Lit (VStr name) \<Rightarrow> VNum (indexOf (map fst gs) name)
                                | _ \<Rightarrow> VNum (- 1)),
      shortSource = (\<lambda>tag. case tag of None \<Rightarrow> VUndefined | Some src \<Rightarrow> VStr src),
      canBeStoredInRef = (\<lambda>n. 0 \<le> n \<and> n < 16777216),
      packPrimitiveIndex = (\<lambda>i. 16777216 + i),
      packProjectionIndex = (\<lambda>i. 33554432 + i),
      InvalidatesFlag = 1,
      this_getters = gs,
      this_setters = ss,
      getRealGetters = map fst gs,
      debug = dbg\<rparr>"

text \<open>Sample tokens, a sample setter on the path \<open>root.a\<close> and a sample \<^verbatim>\<open>get\<close> node.\<close>

definition sampleRoot :: node where
  "sampleRoot = Tok (Token ''root'' [] False False 0 None)"

definition sampleTopLevel :: node where
  "sampleTopLevel = Tok (Token ''topLevel'' [] False False 0 None)"

definition sampleSetter :: SetterExpression where
  "sampleSetter =
     \<lparr>setterType = VStr ''set'',
      parts = [sampleRoot, Lit (VStr ''a''), Tok (Token ''key'' [] False False 0 None)]\<rparr>"

definition sampleGet :: "node \<Rightarrow> node" where
  "sampleGet obj = Expr (Token ''get'' [] False False 0 None) [Lit (VStr ''y''), obj]"

text \<open>Tables on which each of the four interning paths finds its key present.\<close>

definition sampleTables :: tables where
  "sampleTables =
     \<lparr>projectionsByHash =
        [(''*root'', \<lparr>p_type = ''$root'', p_args = [], p_metaData = ''md'', p_source = VNull\<rparr>)],
      primitivesByHash = [(''null'', VUndefined)],
      metaDataByHash = [(''md'', \<lparr>md_invalidates = True, md_paths = []\<rparr>)]\<rparr>"

section \<open>What every run of the builder preserves\<close>

text \<open>
  The tables change only through \<^verbatim>\<open>addPrimitive\<close>, \<^verbatim>\<open>addMetaData\<close> and the
  assignment of a generated projection. A property of the tables that these three
  preserve therefore holds after every call of the builder that returns, and after
  the whole of the first half of \<^verbatim>\<open>buildProjectionData\<close>.
\<close>

lemma builder_preserves:
  assumes prim: "\<And>this p st. Q this st \<Longrightarrow> Q this (snd (addPrimitive this p st))"
      and meta: "\<And>this m st. Q this st \<Longrightarrow> Q this (snd (addMetaData this m st))"
      and proj: "\<And>this h p st. Q this st \<Longrightarrow>
                   Q this (st\<lparr>projectionsByHash := assign (projectionsByHash st) h p\<rparr>)"
  shows "serializeProjection this e st = Inr (r, st') \<Longrightarrow> Q this st \<Longrightarrow> Q this st'"
    and "generateProjectionFromExpression this e st = Inr (p, st') \<Longrightarrow> Q this st \<Longrightarrow> Q this st'"
    and "serializeAll this es st = Inr (rs, st') \<Longrightarrow> Q this st \<Longrightarrow> Q this st'"
    and "forEachPath this ps st = Inr (pths, st') \<Longrightarrow> Q this st \<Longrightarrow> Q this st'"
proof (induction this e st and this e st and this es st and this ps st
        arbitrary: r st' and p st' and rs st' and pths st'
        rule: serializeProjection_generateProjectionFromExpression_serializeAll_forEachPath.induct)
  case (1 this expression st)
  show ?case
  proof (cases expression)
    case (Lit v)
    with "1.prems" show ?thesis
      using prim [of this st v]
      by (auto simp: serializeProjection.simps split: if_splits prod.splits)
  next
    case (Tok t)
    with "1.prems" "1.IH" show ?thesis
      by (auto simp: serializeProjection.simps Let_def proj
               split: if_splits sum.splits)
  next
    case (Expr t args)
    with "1.prems" "1.IH" show ?thesis
      by (auto simp: serializeProjection.simps Let_def proj
               split: if_splits sum.splits)
  qed
next
  case (2 this expression st)
  from "2.prems"(1) obtain tok paths st1 ty st2 mdh st3 margs args where
    tok: "headToken expression = Some tok"
    and fe: "forEachPath this (tpath tok) st = Inr (paths, st1)"
    and ap: "addPrimitive this (VStr (ttype tok)) st1 = (ty, st2)"
    and am: "addMetaData this \<lparr>md_invalidates = tinvalidates tok, md_paths = paths\<rparr> st2 = (mdh, st3)"
    and ma: "argsManipulators this expression tok (expressionArgs expression) = Inr margs"
    and sa: "serializeAll this margs st3 = Inr (args, st')"
    by (rule generate_Inr)
  have q1: "Q this st1" using "2.IH"(1) [OF tok fe] "2.prems"(2) .
  have q2: "Q this st2" using prim [OF q1, of "VStr (ttype tok)"] ap by simp
  have q3: "Q this st3"
    using meta [OF q2, of "\<lparr>md_invalidates = tinvalidates tok, md_paths = paths\<rparr>"] am by simp
  show ?case
    using "2.IH"(2) [OF tok fe refl ap [symmetric] am [symmetric] ma sa q3] .
next
  case (3 this st)
  then show ?case by simp
next
  case (4 this e es st)
  from "4.prems" obtain r0 st1 where s1: "serializeProjection this e st = Inr (r0, st1)"
    by (auto split: sum.splits)
  from "4.prems" s1 obtain rs0 where s2: "serializeAll this es st1 = Inr (rs0, st')"
    by (auto split: sum.splits)
  have "Q this st1" using "4.IH"(1) [OF s1] "4.prems"(2) .
  then show ?case using "4.IH"(2) [OF s1 refl s2] by simp
next
  case (5 this st)
  then show ?case by simp
next
  case (6 this entry rest st)
  from "6.prems" obtain c st1 where s1: "serializeProjection this (snd entry) st = Inr (c, st1)"
    by (auto split: sum.splits)
  have q1: "Q this st1" using "6.IH"(1) [OF s1] "6.prems"(2) .
  from "6.prems" s1 obtain rp where rp: "retainedPath this (fst entry) = Inr rp"
    by (auto split: sum.splits)
  show ?case
  proof (cases rp)
    case None
    with "6.prems" s1 rp have "forEachPath this rest st1 = Inr (pths, st')" by simp
    then show ?thesis using "6.IH"(2) [OF s1 refl rp None] q1 by simp
  next
    case (Some steps)
    from "6.prems" s1 rp Some obtain sr st2 where
      s2: "serializeAll this steps st1 = Inr (sr, st2)" by (auto split: sum.splits)
    from "6.prems" s1 rp Some s2 obtain ps0 where
      s3: "forEachPath this rest st2 = Inr (ps0, st')" by (auto split: sum.splits)
    have q2: "Q this st2" using "6.IH"(3) [OF s1 refl rp Some s2] q1 by simp
    show ?thesis using "6.IH"(4) [OF s1 refl rp Some s2 refl s3] q2 by simp
  qed
qed


text \<open>
  A key of the metadata table stays a key, so the metadata hash of a projection that has
  been generated is a key of the table from then on. With that, a property only needs to
  survive the assignment of a projection whose metadata hash is present.
\<close>

lemma has_assign: "has (assign tbl k v) k' \<longleftrightarrow> k' = k \<or> has tbl k'"
  by (induction tbl) (auto simp: has_def split: if_splits)


lemma has_addMetaData:
  "has (metaDataByHash st) k \<Longrightarrow> has (metaDataByHash (snd (addMetaData this m st))) k"
  by (simp add: addMetaData_def Let_def has_assign)

lemma has_addMetaData_self:
  "addMetaData this m st = (h, st') \<Longrightarrow> h = exprHashMeta this m \<and> has (metaDataByHash st') h"
  by (auto simp: addMetaData_def Let_def has_assign)

lemma metaData_addPrimitive [simp]:
  "metaDataByHash (snd (addPrimitive this p st)) = metaDataByHash st"
  by (simp add: addPrimitive_def Let_def)

lemma projections_addPrimitive [simp]:
  "projectionsByHash (snd (addPrimitive this p st)) = projectionsByHash st"
  by (simp add: addPrimitive_def Let_def)

lemma projections_addMetaData [simp]:
  "projectionsByHash (snd (addMetaData this m st)) = projectionsByHash st"
  by (simp add: addMetaData_def Let_def)

lemma has_metaData_mono:
  "serializeAll this es st = Inr (rs, st') \<Longrightarrow> has (metaDataByHash st) k
     \<Longrightarrow> has (metaDataByHash st') k"
  by (rule builder_preserves(3) [of "\<lambda>this st. has (metaDataByHash st) k"])
     (simp_all add: has_addMetaData)

lemma generate_metaData_present:
  assumes "generateProjectionFromExpression this e st = Inr (p, st')"
  shows "has (metaDataByHash st') (p_metaData p)"
proof -
  from assms obtain tok paths st2 mdh st3 margs args where
    am: "addMetaData this \<lparr>md_invalidates = tinvalidates tok, md_paths = paths\<rparr> st2 = (mdh, st3)"
    and sa: "serializeAll this margs st3 = Inr (args, st')"
    and p: "p_metaData p = mdh"
    by (rule generate_Inr) simp
  from has_addMetaData_self [OF am] have "has (metaDataByHash st3) mdh" by blast
  from has_metaData_mono [OF sa this] p show ?thesis by simp
qed


lemma serializeProjection_expression:
  "headToken e = Some t \<Longrightarrow>
     serializeProjection this e st =
       (if \<not> has (projectionsByHash st) (exprHashExpr this e)
        then (case generateProjectionFromExpression this e st of
                Inl err \<Rightarrow> Inl err
              | Inr (p, st') \<Rightarrow>
                  Inr (ProjectionsRef (exprHashExpr this e),
                       st'\<lparr>projectionsByHash := assign (projectionsByHash st') (exprHashExpr this e) p\<rparr>))
        else Inr (ProjectionsRef (exprHashExpr this e), st))"
  by (cases e) (auto simp: serializeProjection.simps headToken_def Let_def)

lemma builder_preserves_present:
  assumes prim: "\<And>this p st. Q this st \<Longrightarrow> Q this (snd (addPrimitive this p st))"
      and meta: "\<And>this m st. Q this st \<Longrightarrow> Q this (snd (addMetaData this m st))"
      and proj: "\<And>this h p st. Q this st \<Longrightarrow> has (metaDataByHash st) (p_metaData p) \<Longrightarrow>
                   Q this (st\<lparr>projectionsByHash := assign (projectionsByHash st) h p\<rparr>)"
  shows "serializeProjection this e st = Inr (r, st') \<Longrightarrow> Q this st \<Longrightarrow> Q this st'"
    and "generateProjectionFromExpression this e st = Inr (p, st') \<Longrightarrow> Q this st \<Longrightarrow> Q this st'"
    and "serializeAll this es st = Inr (rs, st') \<Longrightarrow> Q this st \<Longrightarrow> Q this st'"
    and "forEachPath this ps st = Inr (pths, st') \<Longrightarrow> Q this st \<Longrightarrow> Q this st'"
proof (induction this e st and this e st and this es st and this ps st
        arbitrary: r st' and p st' and rs st' and pths st'
        rule: serializeProjection_generateProjectionFromExpression_serializeAll_forEachPath.induct)
  case (1 this expression st)
  show ?case
  proof (cases "headToken expression")
    case None
    then obtain v where "expression = Lit v" by (cases expression) (simp_all add: headToken_def)
    with "1.prems" show ?thesis
      using prim [of this st v]
      by (auto simp: serializeProjection.simps split: if_splits prod.splits)
  next
    case (Some t)
    note sp = serializeProjection_expression [OF Some, of this st]
    show ?thesis
    proof (cases "has (projectionsByHash st) (exprHashExpr this expression)")
      case True
      with "1.prems" sp show ?thesis by simp
    next
      case False
      with "1.prems"(1) sp obtain p0 st0 where
        g: "generateProjectionFromExpression this expression st = Inr (p0, st0)"
        and st': "st' = st0\<lparr>projectionsByHash :=
                       assign (projectionsByHash st0) (exprHashExpr this expression) p0\<rparr>"
        by (auto split: sum.splits)
      have q0: "Q this st0"
        using "1.IH" [OF _ refl _ g] Some False "1.prems"(2)
        by (cases expression) (auto simp: headToken_def)
      show ?thesis unfolding st'
        using proj [OF q0 generate_metaData_present [OF g]] .
    qed
  qed
next
  case (2 this expression st)
  from "2.prems"(1) obtain tok paths st1 ty st2 mdh st3 margs args where
    tok: "headToken expression = Some tok"
    and fe: "forEachPath this (tpath tok) st = Inr (paths, st1)"
    and ap: "addPrimitive this (VStr (ttype tok)) st1 = (ty, st2)"
    and am: "addMetaData this \<lparr>md_invalidates = tinvalidates tok, md_paths = paths\<rparr> st2 = (mdh, st3)"
    and ma: "argsManipulators this expression tok (expressionArgs expression) = Inr margs"
    and sa: "serializeAll this margs st3 = Inr (args, st')"
    by (rule generate_Inr)
  have q1: "Q this st1" using "2.IH"(1) [OF tok fe] "2.prems"(2) .
  have q2: "Q this st2" using prim [OF q1, of "VStr (ttype tok)"] ap by simp
  have q3: "Q this st3"
    using meta [OF q2, of "\<lparr>md_invalidates = tinvalidates tok, md_paths = paths\<rparr>"] am by simp
  show ?case
    using "2.IH"(2) [OF tok fe refl ap [symmetric] am [symmetric] ma sa q3] .
next
  case (3 this st)
  then show ?case by simp
next
  case (4 this e es st)
  from "4.prems" obtain r0 st1 where s1: "serializeProjection this e st = Inr (r0, st1)"
    by (auto split: sum.splits)
  from "4.prems" s1 obtain rs0 where s2: "serializeAll this es st1 = Inr (rs0, st')"
    by (auto split: sum.splits)
  have "Q this st1" using "4.IH"(1) [OF s1] "4.prems"(2) .
  then show ?case using "4.IH"(2) [OF s1 refl s2] by simp
next
  case (5 this st)
  then show ?case by simp
next
  case (6 this entry rest st)
  from "6.prems" obtain c st1 where s1: "serializeProjection this (snd entry) st = Inr (c, st1)"
    by (auto split: sum.splits)
  have q1: "Q this st1" using "6.IH"(1) [OF s1] "6.prems"(2) .
  from "6.prems" s1 obtain rp where rp: "retainedPath this (fst entry) = Inr rp"
    by (auto split: sum.splits)
  show ?case
  proof (cases rp)
    case None
    with "6.prems" s1 rp have "forEachPath this rest st1 = Inr (pths, st')" by simp
    then show ?thesis using "6.IH"(2) [OF s1 refl rp None] q1 by simp
  next
    case (Some steps)
    from "6.prems" s1 rp Some obtain sr st2 where
      s2: "serializeAll this steps st1 = Inr (sr, st2)" by (auto split: sum.splits)
    from "6.prems" s1 rp Some s2 obtain ps0 where
      s3: "forEachPath this rest st2 = Inr (ps0, st')" by (auto split: sum.splits)
    have q2: "Q this st2" using "6.IH"(3) [OF s1 refl rp Some s2] q1 by simp
    show ?thesis using "6.IH"(4) [OF s1 refl rp Some s2 refl s3] q2 by simp
  qed
qed

lemma topLevels_preserves:
  assumes prim: "\<And>this p st. Q this st \<Longrightarrow> Q this (snd (addPrimitive this p st))"
      and meta: "\<And>this m st. Q this st \<Longrightarrow> Q this (snd (addMetaData this m st))"
      and proj: "\<And>this h p st. Q this st \<Longrightarrow> has (metaDataByHash st) (p_metaData p) \<Longrightarrow>
                   Q this (st\<lparr>projectionsByHash := assign (projectionsByHash st) h p\<rparr>)"
  shows "intermediateTopLevels this names st = Inr (tops, st') \<Longrightarrow> Q this st \<Longrightarrow> Q this st'"
proof (induction names arbitrary: st tops)
  case Nil
  then show ?case by simp
next
  case (Cons name rest)
  let ?e = "case map_of (this_getters this) name of None \<Rightarrow> Lit VUndefined | Some e \<Rightarrow> e"
  from Cons.prems obtain proj0 st1 where s1: "serializeProjection this ?e st = Inr (proj0, st1)"
    by (auto split: sum.splits)
  have q1: "Q this st1"
    using builder_preserves_present(1) [of Q, OF prim meta proj s1] Cons.prems(2) by simp
  obtain nm st2 where nm: "(if debug this \<or> take 1 name \<noteq> ''$''
                then (case addPrimitive this (VStr name) st1 of (h, st2) \<Rightarrow> (Some h, st2))
                else (None, st1)) = (nm, st2)"
    by (cases "(if debug this \<or> take 1 name \<noteq> ''$''
                then (case addPrimitive this (VStr name) st1 of (h, st2) \<Rightarrow> (Some h, st2))
                else (None, st1))")
  have q2: "Q this st2"
    using nm q1 prim [OF q1, of "VStr name"] by (auto split: if_splits prod.splits)
  from Cons.prems s1 nm obtain tops0 where
    s3: "intermediateTopLevels this rest st2 = Inr (tops0, st')"
    by (auto split: sum.splits)
  show ?case using Cons.IH [OF s3 q2] .
qed

lemma serializeSetter_preserves:
  assumes prim: "\<And>this p st. Q this st \<Longrightarrow> Q this (snd (addPrimitive this p st))"
      and meta: "\<And>this m st. Q this st \<Longrightarrow> Q this (snd (addMetaData this m st))"
      and proj: "\<And>this h p st. Q this st \<Longrightarrow> has (metaDataByHash st) (p_metaData p) \<Longrightarrow>
                   Q this (st\<lparr>projectionsByHash := assign (projectionsByHash st) h p\<rparr>)"
  shows "serializeSetter this setter name st = Inr (s, st') \<Longrightarrow> Q this st \<Longrightarrow> Q this st'"
proof -
  assume a: "serializeSetter this setter name st = Inr (s, st')" and q: "Q this st"
  let ?n = "int (length (filter isToken (parts setter))) - 1"
  let ?steps = "map (\<lambda>token. if isKeyToken token then newToken (''arg'' @ showInt (?n - 1))
                             else token) (drop 1 (parts setter))"
  from a obtain sp st1 where s1: "serializeAll this ?steps st = Inr (sp, st1)"
    by (auto simp: serializeSetter_def Let_def split: sum.splits)
  have q1: "Q this st1" using builder_preserves_present(3) [of Q, OF prim meta proj s1] q by simp
  have q2: "Q this (snd (addPrimitive this (setterType setter) st1))" using prim [OF q1] .
  have q3: "Q this (snd (addPrimitive this (VStr name) (snd (addPrimitive this (setterType setter) st1))))"
    using prim [OF q2] .
  from a s1 have "st' = snd (addPrimitive this (VStr name) (snd (addPrimitive this (setterType setter) st1)))"
    by (auto simp: serializeSetter_def Let_def split: prod.splits)
  with q3 show ?thesis by simp
qed

lemma setters_preserves:
  assumes prim: "\<And>this p st. Q this st \<Longrightarrow> Q this (snd (addPrimitive this p st))"
      and meta: "\<And>this m st. Q this st \<Longrightarrow> Q this (snd (addMetaData this m st))"
      and proj: "\<And>this h p st. Q this st \<Longrightarrow> has (metaDataByHash st) (p_metaData p) \<Longrightarrow>
                   Q this (st\<lparr>projectionsByHash := assign (projectionsByHash st) h p\<rparr>)"
  shows "intermediateSetters this ss st = Inr (res, st') \<Longrightarrow> Q this st \<Longrightarrow> Q this st'"
proof (induction ss arbitrary: st res)
  case Nil
  then show ?case by simp
next
  case (Cons entry rest)
  from Cons.prems obtain s st1 where s1: "serializeSetter this (snd entry) (fst entry) st = Inr (s, st1)"
    by (auto split: sum.splits)
  from Cons.prems s1 obtain ss0 where s2: "intermediateSetters this rest st1 = Inr (ss0, st')"
    by (auto split: sum.splits)
  have "Q this st1" using serializeSetter_preserves [of Q, OF prim meta proj s1] Cons.prems(2) by simp
  then show ?case using Cons.IH [OF s2] by simp
qed

lemma assign_absent: "\<not> has tbl k \<Longrightarrow> assign tbl k v = tbl @ [(k, v)]"
  by (induction tbl) (auto simp: has_def)

lemma has_iff: "has tbl k \<longleftrightarrow> k \<in> fst ` set tbl"
  by (simp add: has_def map_of_eq_None_iff)

lemma set_objectEntries: "set (objectEntries tbl) = set tbl"
  by (auto simp: objectEntries_def)

section \<open>Interning and hash collisions\<close>

text \<open>
  The specification's account of interning, written out: a value whose hash is present
  is compared with the stored value, and the table is reused only when they are equal.
\<close>

definition spec_intern :: "'a table \<Rightarrow> string \<Rightarrow> 'a \<Rightarrow> error + 'a table" where
  "spec_intern tbl hash v =
     (case map_of tbl hash of
        None \<Rightarrow> Inr (assign tbl hash v)
      | Some w \<Rightarrow> if w = v then Inr tbl else Inl IntegrityError)"

text \<open>
  C1, as stated, fails. With the sample hash, \<open>undefined\<close> is interned first and stored
  under the hash of \<open>null\<close>. Interning \<open>null\<close> then finds that hash, with a stored value
  that differs: the specification's interning fails with \<open>IntegrityError\<close>, while
  \<^verbatim>\<open>addPrimitive\<close> returns the hash and leaves the table as it is.
\<close>

theorem intern_unchecked_counterexample:
  "primitivesByHash (snd (addPrimitive (sampleCompiler [] [] False) VUndefined emptyTables))
      = [(''null'', VUndefined)]
   \<and> spec_intern [(''null'', VUndefined)] ''null'' VNull = Inl IntegrityError
   \<and> addPrimitive (sampleCompiler [] [] False) VNull
        (snd (addPrimitive (sampleCompiler [] [] False) VUndefined emptyTables))
      = (''null'', snd (addPrimitive (sampleCompiler [] [] False) VUndefined emptyTables))"
proof (intro conjI)
  show "primitivesByHash (snd (addPrimitive (sampleCompiler [] [] False) VUndefined emptyTables))
      = [(''null'', VUndefined)]"
    by code_simp
  show "spec_intern [(''null'', VUndefined)] ''null'' VNull = Inl IntegrityError"
    by (simp add: spec_intern_def)
  show "addPrimitive (sampleCompiler [] [] False) VNull
        (snd (addPrimitive (sampleCompiler [] [] False) VUndefined emptyTables))
      = (''null'', snd (addPrimitive (sampleCompiler [] [] False) VUndefined emptyTables))"
    by (simp add: addPrimitive_def Let_def defaultTo_def has_def emptyTables_def sampleCompiler_def)
qed

text \<open>
  C1, amended: when the hash of the value to intern is already a key of the table,
  the primitives, metadata and path interning functions and the projection branch of
  \<^verbatim>\<open>serializeProjection\<close> return the hash and leave every table as it is, whatever
  the stored value is. The stored value is not compared with the new one and no error is
  raised.
\<close>

theorem intern_reuses_slot_unchecked:
  "(has (primitivesByHash st) (exprHash this (defaultTo p VNull)) \<longrightarrow>
      addPrimitive this p st = (exprHash this (defaultTo p VNull), st))
   \<and> (has (metaDataByHash st) (exprHashMeta this m) \<longrightarrow>
      addMetaData this m st = (exprHashMeta this m, st))
   \<and> (has pathByHash (exprHashPath this path) \<longrightarrow>
      addPath this path pathByHash = (exprHashPath this path, pathByHash))
   \<and> (has (projectionsByHash st) (exprHashExpr this e) \<and> headToken e \<noteq> None \<longrightarrow>
      serializeProjection this e st = Inr (ProjectionsRef (exprHashExpr this e), st))"
proof (intro conjI impI)
  show "addPrimitive this p st = (exprHash this (defaultTo p VNull), st)"
    if "has (primitivesByHash st) (exprHash this (defaultTo p VNull))"
    using that by (simp add: addPrimitive_def Let_def)
  show "addMetaData this m st = (exprHashMeta this m, st)"
    if "has (metaDataByHash st) (exprHashMeta this m)"
    using that by (simp add: addMetaData_def Let_def)
  show "addPath this path pathByHash = (exprHashPath this path, pathByHash)"
    if "has pathByHash (exprHashPath this path)"
    using that by (simp add: addPath_def Let_def)
  show "serializeProjection this e st = Inr (ProjectionsRef (exprHashExpr this e), st)"
    if "has (projectionsByHash st) (exprHashExpr this e) \<and> headToken e \<noteq> None"
    using that by (cases e) (simp_all add: serializeProjection.simps headToken_def Let_def)
qed

theorem intern_reuses_slot_unchecked_witness:
  "has (primitivesByHash sampleTables) (exprHash (sampleCompiler [] [] False) (defaultTo VNull VNull))
   \<and> addPrimitive (sampleCompiler [] [] False) VNull sampleTables = (''null'', sampleTables)
   \<and> map_of (primitivesByHash sampleTables) ''null'' = Some VUndefined
   \<and> has (metaDataByHash sampleTables)
         (exprHashMeta (sampleCompiler [] [] False) \<lparr>md_invalidates = False, md_paths = []\<rparr>)
   \<and> addMetaData (sampleCompiler [] [] False) \<lparr>md_invalidates = False, md_paths = []\<rparr> sampleTables
        = (''md'', sampleTables)
   \<and> has [(''path,1'', [7])] (exprHashPath (sampleCompiler [] [] False) [1])
   \<and> addPath (sampleCompiler [] [] False) [1] [(''path,1'', [7])] = (''path,1'', [(''path,1'', [7])])
   \<and> has (projectionsByHash sampleTables)
         (exprHashExpr (sampleCompiler [] [] False) (Tok (Token ''root'' [] True False 0 None)))
   \<and> headToken (Tok (Token ''root'' [] True False 0 None)) \<noteq> None
   \<and> serializeProjection (sampleCompiler [] [] False) (Tok (Token ''root'' [] True False 0 None))
        sampleTables = Inr (ProjectionsRef ''*root'', sampleTables)"
proof -
  let ?c = "sampleCompiler [] [] False"
  let ?e = "Tok (Token ''root'' [] True False 0 None)"
  let ?m = "\<lparr>md_invalidates = False, md_paths = []\<rparr>"
  have h1: "has (primitivesByHash sampleTables) (exprHash ?c (defaultTo VNull VNull))"
    by code_simp
  have h2: "has (metaDataByHash sampleTables) (exprHashMeta ?c ?m)"
    by code_simp
  have h3: "has [(''path,1'', [7])] (exprHashPath ?c [1])"
    by code_simp
  have h4: "has (projectionsByHash sampleTables) (exprHashExpr ?c ?e)"
    by code_simp
  have h5: "headToken ?e \<noteq> None"
    by (simp add: headToken_def)
  have e1: "exprHash ?c (defaultTo VNull VNull) = ''null''" by code_simp
  have e2: "exprHashMeta ?c ?m = ''md''" by code_simp
  have e3: "exprHashPath ?c [1] = ''path,1''" by code_simp
  have e4: "exprHashExpr ?c ?e = ''*root''" by code_simp
  have e5: "map_of (primitivesByHash sampleTables) ''null'' = Some VUndefined" by code_simp
  have r: "addPrimitive ?c VNull sampleTables = (''null'', sampleTables)"
      "addMetaData ?c ?m sampleTables = (''md'', sampleTables)"
      "addPath ?c [1] [(''path,1'', [7])] = (''path,1'', [(''path,1'', [7])])"
      "serializeProjection ?c ?e sampleTables = Inr (ProjectionsRef ''*root'', sampleTables)"
    using intern_reuses_slot_unchecked [of sampleTables ?c VNull ?m "[(''path,1'', [7])]" "[1]" ?e]
      h1 h2 h3 h4 h5
    unfolding e1 e2 e3 e4 by blast+
  show ?thesis
    using h1 h2 h3 h4 h5 e5 r by (intro conjI) assumption+
qed

section \<open>\<open>undefined\<close> and \<open>null\<close> in the primitives table\<close>

definition primInv :: "VMCompiler \<Rightarrow> tables \<Rightarrow> bool" where
  "primInv this st =
     (distinct (map fst (primitivesByHash st)) \<and>
      list_all (\<lambda>kv. fst kv = exprHash this (defaultTo (snd kv) VNull)) (primitivesByHash st))"

lemma primInv_addPrimitive: "primInv this st \<Longrightarrow> primInv this (snd (addPrimitive this p st))"
  by (auto simp: primInv_def addPrimitive_def Let_def assign_absent has_iff)

lemma primInv_addMetaData: "primInv this st \<Longrightarrow> primInv this (snd (addMetaData this m st))"
  by (auto simp: primInv_def addMetaData_def Let_def)

lemma primInv_proj:
  "primInv this st \<Longrightarrow> primInv this (st\<lparr>projectionsByHash := assign (projectionsByHash st) h p\<rparr>)"
  by (simp add: primInv_def)

lemma primInv_build:
  assumes "buildProjectionData this = Inr out"
  shows "\<exists>st. primInv this st \<and> primitives out = map snd (objectEntries (primitivesByHash st))"
proof -
  from assms obtain tops st1 where
    t: "intermediateTopLevels this (getRealGetters this) emptyTables = Inr (tops, st1)"
    by (auto simp: buildProjectionData_def split: sum.splits)
  from assms t obtain isetters st2 where
    s: "intermediateSetters this (this_setters this) st1 = Inr (isetters, st2)"
    and out: "out = pack this st2 tops isetters"
    by (auto simp: buildProjectionData_def split: sum.splits)
  have "primInv this emptyTables" by (simp add: primInv_def emptyTables_def)
  then have "primInv this st1"
    using topLevels_preserves [of primInv, OF primInv_addPrimitive primInv_addMetaData primInv_proj t]
    by simp
  then have "primInv this st2"
    using setters_preserves [of primInv, OF primInv_addPrimitive primInv_addMetaData primInv_proj s]
    by simp
  moreover have "primitives out = map snd (objectEntries (primitivesByHash st2))"
    using out by (simp add: pack_def Let_def split: prod.splits)
  ultimately show ?thesis by blast
qed

lemma primInv_not_both:
  assumes "primInv this st"
  shows "\<not> (VUndefined \<in> snd ` set (primitivesByHash st) \<and> VNull \<in> snd ` set (primitivesByHash st))"
proof
  assume "VUndefined \<in> snd ` set (primitivesByHash st) \<and> VNull \<in> snd ` set (primitivesByHash st)"
  then obtain k1 k2 where k1: "(k1, VUndefined) \<in> set (primitivesByHash st)"
    and k2: "(k2, VNull) \<in> set (primitivesByHash st)" by auto
  from assms k1 have "k1 = exprHash this VNull"
    by (auto simp: primInv_def list_all_iff defaultTo_def)
  moreover from assms k2 have "k2 = exprHash this VNull"
    by (auto simp: primInv_def list_all_iff defaultTo_def)
  ultimately have "k1 = k2" by simp
  moreover from assms have "distinct (map fst (primitivesByHash st))" by (simp add: primInv_def)
  ultimately have "VUndefined = VNull" using k1 k2 by (metis eq_key_imp_eq_value)
  then show False by simp
qed

text \<open>
  C10: \<^verbatim>\<open>addPrimitive\<close> hashes \<open>undefined\<close> as \<open>null\<close>. Both values get the hash of
  \<open>null\<close>; once one of them has been interned, interning the other returns that hash
  and changes nothing; the stored entry is the value interned first; and the
  \<^verbatim>\<open>primitives\<close> array of a compiled program never holds both \<open>undefined\<close> and \<open>null\<close>.
\<close>

theorem addPrimitive_undefined_as_null:
  "fst (addPrimitive this VUndefined st) = fst (addPrimitive this VNull st)
   \<and> addPrimitive this VUndefined (snd (addPrimitive this VNull st))
       = (exprHash this VNull, snd (addPrimitive this VNull st))
   \<and> addPrimitive this VNull (snd (addPrimitive this VUndefined st))
       = (exprHash this VNull, snd (addPrimitive this VUndefined st))
   \<and> (\<not> has (primitivesByHash st) (exprHash this VNull) \<longrightarrow>
        map_of (primitivesByHash (snd (addPrimitive this VUndefined (snd (addPrimitive this VNull st)))))
           (exprHash this VNull) = Some VNull
      \<and> map_of (primitivesByHash (snd (addPrimitive this VNull (snd (addPrimitive this VUndefined st)))))
           (exprHash this VNull) = Some VUndefined)
   \<and> (\<forall>out. buildProjectionData this = Inr out \<longrightarrow>
         \<not> (VUndefined \<in> set (primitives out) \<and> VNull \<in> set (primitives out)))"
proof (intro conjI allI impI)
  show "fst (addPrimitive this VUndefined st) = fst (addPrimitive this VNull st)"
    by (simp add: addPrimitive_def defaultTo_def Let_def)
  have h: "\<And>v. has (primitivesByHash (snd (addPrimitive this v st))) (exprHash this (defaultTo v VNull))"
    by (auto simp: addPrimitive_def Let_def assign_absent has_iff)
  show "addPrimitive this VUndefined (snd (addPrimitive this VNull st))
       = (exprHash this VNull, snd (addPrimitive this VNull st))"
    using h [of VNull] by (simp add: addPrimitive_def [of this VUndefined] defaultTo_def Let_def)
  show "addPrimitive this VNull (snd (addPrimitive this VUndefined st))
       = (exprHash this VNull, snd (addPrimitive this VUndefined st))"
    using h [of VUndefined] by (simp add: addPrimitive_def [of this VNull] defaultTo_def Let_def)
next
  assume a: "\<not> has (primitivesByHash st) (exprHash this VNull)"
  then have n: "map_of (primitivesByHash st) (exprHash this VNull) = None" by (simp add: has_def)
  show "map_of (primitivesByHash (snd (addPrimitive this VUndefined (snd (addPrimitive this VNull st)))))
           (exprHash this VNull) = Some VNull"
    using a n by (simp add: addPrimitive_def defaultTo_def Let_def assign_absent has_def map_add_def)
  show "map_of (primitivesByHash (snd (addPrimitive this VNull (snd (addPrimitive this VUndefined st)))))
           (exprHash this VNull) = Some VUndefined"
    using a n by (simp add: addPrimitive_def defaultTo_def Let_def assign_absent has_def map_add_def)
next
  fix out
  assume b: "buildProjectionData this = Inr out"
  from primInv_build [OF b] obtain st0 where
    inv: "primInv this st0" and p: "primitives out = map snd (objectEntries (primitivesByHash st0))"
    by blast
  have "set (primitives out) = snd ` set (primitivesByHash st0)"
    using p by (simp add: set_objectEntries)
  with primInv_not_both [OF inv]
  show "\<not> (VUndefined \<in> set (primitives out) \<and> VNull \<in> set (primitives out))" by simp
qed

theorem addPrimitive_undefined_as_null_witness:
  "fst (addPrimitive (sampleCompiler [(''u'', Lit VUndefined), (''n'', Lit VNull)] [] False)
          VUndefined emptyTables) = ''null''
   \<and> fst (addPrimitive (sampleCompiler [(''u'', Lit VUndefined), (''n'', Lit VNull)] [] False)
          VNull emptyTables) = ''null''
   \<and> \<not> has (primitivesByHash emptyTables)
          (exprHash (sampleCompiler [(''u'', Lit VUndefined), (''n'', Lit VNull)] [] False) VNull)
   \<and> primitivesByHash (snd (addPrimitive (sampleCompiler [(''u'', Lit VUndefined), (''n'', Lit VNull)] [] False) VUndefined
        (snd (addPrimitive (sampleCompiler [(''u'', Lit VUndefined), (''n'', Lit VNull)] [] False) VNull emptyTables))))
       = [(''null'', VNull)]
   \<and> buildProjectionData (sampleCompiler [(''u'', Lit VUndefined), (''n'', Lit VNull)] [] False)
       = Inr \<lparr>getters = [], primitives = [VUndefined, VStr ''u'', VStr ''n''],
              topLevelNames = [1, 2], topLevelProjections = [- 1, - 1],
              metaData = [[0]], paths = [], setters = [], sources = []\<rparr>
   \<and> VNull \<notin> set [VUndefined, VStr ''u'', VStr ''n'']"
proof -
  let ?c = "sampleCompiler [(''u'', Lit VUndefined), (''n'', Lit VNull)] [] False"
  have f1: "fst (addPrimitive ?c VUndefined emptyTables) = ''null''" by code_simp
  have f2: "fst (addPrimitive ?c VNull emptyTables) = ''null''" by code_simp
  have f3: "\<not> has (primitivesByHash emptyTables) (exprHash ?c VNull)" by code_simp
  have f4: "primitivesByHash (snd (addPrimitive ?c VUndefined (snd (addPrimitive ?c VNull emptyTables))))
       = [(''null'', VNull)]" by code_simp
  have f5: "buildProjectionData ?c
       = Inr \<lparr>getters = [], primitives = [VUndefined, VStr ''u'', VStr ''n''],
              topLevelNames = [1, 2], topLevelProjections = [- 1, - 1],
              metaData = [[0]], paths = [], setters = [], sources = []\<rparr>" by code_simp
  have f6: "VNull \<notin> set [VUndefined, VStr ''u'', VStr ''n'']" by simp
  show ?thesis
    using addPrimitive_undefined_as_null [of ?c emptyTables] f1 f2 f3 f4 f5 f6
    by (intro conjI) assumption+
qed

section \<open>The arguments of \<^verbatim>\<open>get\<close>\<close>

text \<open>
  C7: for a \<^verbatim>\<open>get\<close> node, whose arguments are the key first and the object second,
  the builder serializes the object first and the key second; the key is replaced by
  \<^verbatim>\<open>topLevelToIndex(key)\<close> when the object is the \<^verbatim>\<open>topLevel\<close> token and is kept
  otherwise; and the argument references of the generated projection are the
  serialization of exactly these two.
\<close>

theorem get_arguments_reordered:
  "headToken e = Some t \<and> ttype t = ''get''
     \<and> prop = at (expressionArgs e) 0 \<and> obj = at (expressionArgs e) 1 \<longrightarrow>
     (isTopLevelToken obj \<longrightarrow>
        argsManipulators this e t (expressionArgs e) = Inr [obj, Lit (topLevelToIndex this prop)])
   \<and> (\<not> isTopLevelToken obj \<longrightarrow>
        argsManipulators this e t (expressionArgs e) = Inr [obj, prop])
   \<and> (\<forall>st p st'. generateProjectionFromExpression this e st = Inr (p, st') \<longrightarrow>
        (\<exists>st0. serializeAll this
                 [obj, if isTopLevelToken obj then Lit (topLevelToIndex this prop) else prop] st0
               = Inr (p_args p, st')))"
proof (intro impI conjI allI)
  assume a: "headToken e = Some t \<and> ttype t = ''get''
     \<and> prop = at (expressionArgs e) 0 \<and> obj = at (expressionArgs e) 1"
  have am: "argsManipulators this e t (expressionArgs e)
     = Inr [obj, if isTopLevelToken obj then Lit (topLevelToIndex this prop) else prop]"
    using a by (simp add: argsManipulators_def)
  show "argsManipulators this e t (expressionArgs e) = Inr [obj, Lit (topLevelToIndex this prop)]"
    if "isTopLevelToken obj"
    using am that by simp
  show "argsManipulators this e t (expressionArgs e) = Inr [obj, prop]"
    if "\<not> isTopLevelToken obj"
    using am that by simp
  fix st p st'
  assume gen: "generateProjectionFromExpression this e st = Inr (p, st')"
  from gen obtain tok st3 margs args where
    tok: "headToken e = Some tok"
    and ma: "argsManipulators this e tok (expressionArgs e) = Inr margs"
    and sa: "serializeAll this margs st3 = Inr (args, st')"
    and p: "p_args p = args"
    by (rule generate_Inr) simp
  from tok a have "tok = t" by simp
  with ma am have "margs = [obj, if isTopLevelToken obj then Lit (topLevelToIndex this prop) else prop]"
    by simp
  with sa p show "\<exists>st0. serializeAll this
                 [obj, if isTopLevelToken obj then Lit (topLevelToIndex this prop) else prop] st0
               = Inr (p_args p, st')"
    by blast
qed

theorem get_arguments_reordered_witness:
  "headToken (sampleGet sampleTopLevel) = Some (Token ''get'' [] False False 0 None)
   \<and> ttype (Token ''get'' [] False False 0 None) = ''get''
   \<and> isTopLevelToken sampleTopLevel
   \<and> argsManipulators (sampleCompiler [(''x'', Lit (VNum 5)), (''y'', Lit (VNum 6))] [] False)
        (sampleGet sampleTopLevel) (Token ''get'' [] False False 0 None)
        (expressionArgs (sampleGet sampleTopLevel))
      = Inr [sampleTopLevel, Lit (VNum 1)]
   \<and> \<not> isTopLevelToken sampleRoot
   \<and> argsManipulators (sampleCompiler [(''x'', Lit (VNum 5)), (''y'', Lit (VNum 6))] [] False)
        (sampleGet sampleRoot) (Token ''get'' [] False False 0 None)
        (expressionArgs (sampleGet sampleRoot))
      = Inr [sampleRoot, Lit (VStr ''y'')]
   \<and> map (p_args \<circ> fst)
        (case generateProjectionFromExpression
                (sampleCompiler [(''x'', Lit (VNum 5)), (''y'', Lit (VNum 6))] [] False)
                (sampleGet sampleTopLevel) emptyTables of Inl err \<Rightarrow> [] | Inr r \<Rightarrow> [r])
      = [[ProjectionsRef ''*topLevel'', IntsRef 1]]"
proof -
  let ?c = "sampleCompiler [(''x'', Lit (VNum 5)), (''y'', Lit (VNum 6))] [] False"
  let ?t = "Token ''get'' [] False False 0 None"
  have h1: "headToken (sampleGet sampleTopLevel) = Some ?t \<and> ttype ?t = ''get''
      \<and> Lit (VStr ''y'') = at (expressionArgs (sampleGet sampleTopLevel)) 0
      \<and> sampleTopLevel = at (expressionArgs (sampleGet sampleTopLevel)) 1"
    by (simp add: sampleGet_def headToken_def expressionArgs_def at_def)
  have h2: "headToken (sampleGet sampleRoot) = Some ?t \<and> ttype ?t = ''get''
      \<and> Lit (VStr ''y'') = at (expressionArgs (sampleGet sampleRoot)) 0
      \<and> sampleRoot = at (expressionArgs (sampleGet sampleRoot)) 1"
    by (simp add: sampleGet_def headToken_def expressionArgs_def at_def)
  have t1: "isTopLevelToken sampleTopLevel" by (simp add: isTopLevelToken_def sampleTopLevel_def)
  have t2: "\<not> isTopLevelToken sampleRoot" by (simp add: isTopLevelToken_def sampleRoot_def)
  have ix: "topLevelToIndex ?c (Lit (VStr ''y'')) = VNum 1" by code_simp
  have a1: "argsManipulators ?c (sampleGet sampleTopLevel) ?t (expressionArgs (sampleGet sampleTopLevel))
      = Inr [sampleTopLevel, Lit (VNum 1)]"
    using get_arguments_reordered [of "sampleGet sampleTopLevel" ?t "Lit (VStr ''y'')" sampleTopLevel ?c]
      h1 t1 ix by simp
  have a2: "argsManipulators ?c (sampleGet sampleRoot) ?t (expressionArgs (sampleGet sampleRoot))
      = Inr [sampleRoot, Lit (VStr ''y'')]"
    using get_arguments_reordered [of "sampleGet sampleRoot" ?t "Lit (VStr ''y'')" sampleRoot ?c]
      h2 t2 by simp
  have g: "map (p_args \<circ> fst)
        (case generateProjectionFromExpression ?c (sampleGet sampleTopLevel) emptyTables of
           Inl err \<Rightarrow> [] | Inr r \<Rightarrow> [r])
      = [[ProjectionsRef ''*topLevel'', IntsRef 1]]"
    by code_simp
  show ?thesis using h1 t1 a1 t2 a2 g by simp
qed

section \<open>Invalidation paths rooted at the model\<close>

text \<open>
  C8, as stated, fails: a path that consists of the root token alone is discarded even
  though a registered setter matches it, because the test of the source also asks for
  more than one step.
\<close>

lemma settersMatch_iff:
  "settersMatch this path \<longleftrightarrow> (\<exists>setter \<in> snd ` set (this_setters this). pathMatches this path setter)"
  by (auto simp: settersMatch_def filter_empty_conv)

lemma retainedPath_root:
  assumes "ttype r = ''root''"
  shows "retainedPath this (Tok r # rest)
           = Inr (if rest \<noteq> [] \<and> settersMatch this (Tok r # rest) then Some (Tok r # rest) else None)"
  using assms by (cases rest) (simp_all add: retainedPath_def isType_def at_def)

theorem root_only_path_discarded_counterexample:
  "this_setters (sampleCompiler [] [(''setA'', sampleSetter)] False) = [(''setA'', sampleSetter)]
   \<and> pathMatches (sampleCompiler [] [(''setA'', sampleSetter)] False) [sampleRoot] sampleSetter
   \<and> dollarType sampleRoot = Inr (VStr ''root'')
   \<and> retainedPath (sampleCompiler [] [(''setA'', sampleSetter)] False) [sampleRoot] = Inr None
   \<and> map fst (case forEachPath (sampleCompiler [] [(''setA'', sampleSetter)] False)
                    [([sampleRoot], Lit (VBool True))] emptyTables of
                Inl err \<Rightarrow> [] | Inr r \<Rightarrow> [r]) = [[]]"
  by code_simp

text \<open>
  C8, amended: for an invalidation path whose root is the \<^verbatim>\<open>root\<close> token, the builder
  keeps the path verbatim exactly when the path has more than one step and
  \<^verbatim>\<open>pathMatches\<close> holds of the path and some registered setter; otherwise (also for the
  path that is the root alone) it discards the path, and the loop goes on with nothing
  pushed for it.
\<close>

theorem root_path_kept_iff_setter_matches:
  "ttype r = ''root'' \<longrightarrow>
     retainedPath this (Tok r # rest)
       = Inr (if rest \<noteq> []
                 \<and> (\<exists>setter \<in> snd ` set (this_setters this). pathMatches this (Tok r # rest) setter)
              then Some (Tok r # rest) else None)
   \<and> (\<forall>cond others st.
        forEachPath this ((Tok r # rest, cond) # others) st =
          (case serializeProjection this cond st of
             Inl err \<Rightarrow> Inl err
           | Inr (condProj, st1) \<Rightarrow>
               if rest \<noteq> []
                  \<and> (\<exists>setter \<in> snd ` set (this_setters this). pathMatches this (Tok r # rest) setter)
               then (case serializeAll this (Tok r # rest) st1 of
                       Inl err \<Rightarrow> Inl err
                     | Inr (stepRefs, st2) \<Rightarrow>
                        (case forEachPath this others st2 of
                           Inl err \<Rightarrow> Inl err
                         | Inr (kept, st3) \<Rightarrow> Inr ((condProj, stepRefs) # kept, st3)))
               else forEachPath this others st1))"
proof (intro impI conjI allI)
  assume r: "ttype r = ''root''"
  show "retainedPath this (Tok r # rest)
       = Inr (if rest \<noteq> []
                 \<and> (\<exists>setter \<in> snd ` set (this_setters this). pathMatches this (Tok r # rest) setter)
              then Some (Tok r # rest) else None)"
    using retainedPath_root [OF r] by (simp add: settersMatch_iff)
  fix cond others st
  show "forEachPath this ((Tok r # rest, cond) # others) st =
          (case serializeProjection this cond st of
             Inl err \<Rightarrow> Inl err
           | Inr (condProj, st1) \<Rightarrow>
               if rest \<noteq> []
                  \<and> (\<exists>setter \<in> snd ` set (this_setters this). pathMatches this (Tok r # rest) setter)
               then (case serializeAll this (Tok r # rest) st1 of
                       Inl err \<Rightarrow> Inl err
                     | Inr (stepRefs, st2) \<Rightarrow>
                        (case forEachPath this others st2 of
                           Inl err \<Rightarrow> Inl err
                         | Inr (kept, st3) \<Rightarrow> Inr ((condProj, stepRefs) # kept, st3)))
               else forEachPath this others st1)"
    unfolding settersMatch_iff [symmetric]
  proof (cases "rest \<noteq> [] \<and> settersMatch this (Tok r # rest)")
    case True
    have "retainedPath this (Tok r # rest) = Inr (Some (Tok r # rest))"
      using retainedPath_root [OF r, of this rest] True by simp
    then show "forEachPath this ((Tok r # rest, cond) # others) st =
          (case serializeProjection this cond st of
             Inl err \<Rightarrow> Inl err
           | Inr (condProj, st1) \<Rightarrow>
               if rest \<noteq> [] \<and> settersMatch this (Tok r # rest)
               then (case serializeAll this (Tok r # rest) st1 of
                       Inl err \<Rightarrow> Inl err
                     | Inr (stepRefs, st2) \<Rightarrow>
                        (case forEachPath this others st2 of
                           Inl err \<Rightarrow> Inl err
                         | Inr (kept, st3) \<Rightarrow> Inr ((condProj, stepRefs) # kept, st3)))
               else forEachPath this others st1)"
      using True
      by (simp only: forEachPath.simps(2) fst_conv snd_conv sum.case option.case if_True simp_thms)
  next
    case False
    have "retainedPath this (Tok r # rest) = Inr None"
      using retainedPath_root [OF r, of this rest] False by simp
    then show "forEachPath this ((Tok r # rest, cond) # others) st =
          (case serializeProjection this cond st of
             Inl err \<Rightarrow> Inl err
           | Inr (condProj, st1) \<Rightarrow>
               if rest \<noteq> [] \<and> settersMatch this (Tok r # rest)
               then (case serializeAll this (Tok r # rest) st1 of
                       Inl err \<Rightarrow> Inl err
                     | Inr (stepRefs, st2) \<Rightarrow>
                        (case forEachPath this others st2 of
                           Inl err \<Rightarrow> Inl err
                         | Inr (kept, st3) \<Rightarrow> Inr ((condProj, stepRefs) # kept, st3)))
               else forEachPath this others st1)"
      using False
      by (simp only: forEachPath.simps(2) fst_conv snd_conv sum.case option.case if_False simp_thms)
  qed
qed

theorem root_path_kept_iff_setter_matches_witness:
  "ttype (Token ''root'' [] False False 0 None) = ''root''
   \<and> retainedPath (sampleCompiler [] [(''setA'', sampleSetter)] False)
        [Tok (Token ''root'' [] False False 0 None), Lit (VStr ''a'')]
      = Inr (Some [Tok (Token ''root'' [] False False 0 None), Lit (VStr ''a'')])
   \<and> retainedPath (sampleCompiler [] [(''setA'', sampleSetter)] False)
        [Tok (Token ''root'' [] False False 0 None), Lit (VStr ''b'')]
      = Inr None
   \<and> map fst (case forEachPath (sampleCompiler [] [(''setA'', sampleSetter)] False)
                    [([Tok (Token ''root'' [] False False 0 None), Lit (VStr ''a'')], Lit (VBool True))]
                    emptyTables of
                Inl err \<Rightarrow> [] | Inr r \<Rightarrow> [r])
      = [[(PrimitivesRef ''true'', [ProjectionsRef ''*root'', PrimitivesRef ''$a''])]]"
proof -
  let ?c = "sampleCompiler [] [(''setA'', sampleSetter)] False"
  let ?r = "Token ''root'' [] False False 0 None"
  have r: "ttype ?r = ''root''" by simp
  have m1: "(\<exists>setter \<in> snd ` set (this_setters ?c).
               pathMatches ?c (Tok ?r # [Lit (VStr ''a'')]) setter) = True"
    by code_simp
  have m2: "(\<exists>setter \<in> snd ` set (this_setters ?c).
               pathMatches ?c (Tok ?r # [Lit (VStr ''b'')]) setter) = False"
    by code_simp
  have k1: "retainedPath ?c [Tok ?r, Lit (VStr ''a'')] = Inr (Some [Tok ?r, Lit (VStr ''a'')])"
    using root_path_kept_iff_setter_matches [of ?r ?c "[Lit (VStr ''a'')]"] r
    unfolding m1 by simp
  have k2: "retainedPath ?c [Tok ?r, Lit (VStr ''b'')] = Inr None"
    using root_path_kept_iff_setter_matches [of ?r ?c "[Lit (VStr ''b'')]"] r
    unfolding m2 by simp
  have f: "map fst (case forEachPath ?c [([Tok ?r, Lit (VStr ''a'')], Lit (VBool True))] emptyTables of
                Inl err \<Rightarrow> [] | Inr r \<Rightarrow> [r])
      = [[(PrimitivesRef ''true'', [ProjectionsRef ''*root'', PrimitivesRef ''$a''])]]"
    by code_simp
  show ?thesis using r k1 k2 f by simp
qed

section \<open>The metadata sentinel\<close>

















section \<open>The runtime: the model and \<^verbatim>\<open>ensurePath\<close>\<close>

text \<open>
  The model \<^verbatim>\<open>$model\<close> is a nested JSON-like value. An array has its elements and, as
  every object of the language, may carry named properties beside them; an element
  that is \<open>None\<close> is a hole of the array, which reads as \<open>undefined\<close>. Numbers are the
  integers. The model is a tree: no object is reachable along two different paths.
  Property reads see own properties only (the elements and the length of an array or a
  string among them), not what a prototype provides.
\<close>

datatype mval =
    MUndefined
  | MNull
  | MBool bool
  | MNum int
  | MStr string
  | MArr "mval option list" "(string \<times> mval) list"
  | MObj "(string \<times> mval) list"



text \<open>
  Two things are left to the engine that runs the template: whether the code runs in
  strict mode, where a write to a property of a primitive is a \<open>TypeError\<close> instead of
  being ignored, and which array length a value denotes when it is assigned to
  \<^verbatim>\<open>length\<close> (\<open>None\<close> when the assignment is a \<open>RangeError\<close>).
\<close>

record engine =
  strict :: bool
  toLength :: "mval \<Rightarrow> nat option"


definition own :: "(string \<times> mval) list \<Rightarrow> string \<Rightarrow> mval" where
  "own props k = (case map_of props k of None \<Rightarrow> MUndefined | Some v \<Rightarrow> v)"

text \<open>The property read \<^verbatim>\<open>x[k]\<close> and the assignment \<^verbatim>\<open>x[k] = v\<close>, which returns \<open>x\<close> updated.\<close>

fun getProp :: "mval \<Rightarrow> string \<Rightarrow> error + mval" where
  "getProp MUndefined k = Inl TypeError"
| "getProp MNull k = Inl TypeError"
| "getProp (MBool b) k = Inr MUndefined"
| "getProp (MNum n) k = Inr MUndefined"
| "getProp (MStr s) k =
     Inr (if isArrayIndex k then (if numericValue k < length s then MStr [s ! numericValue k] else MUndefined)
          else if k = ''length'' then MNum (int (length s))
          else MUndefined)"
| "getProp (MArr xs props) k =
     Inr (if isArrayIndex k then
            (if numericValue k < length xs
             then (case xs ! numericValue k of None \<Rightarrow> MUndefined | Some v \<Rightarrow> v)
             else MUndefined)
          else if k = ''length'' then MNum (int (length xs))
          else own props k)"
| "getProp (MObj props) k = Inr (own props k)"

fun setProp :: "engine \<Rightarrow> mval \<Rightarrow> string \<Rightarrow> mval \<Rightarrow> error + mval" where
  "setProp e MUndefined k v = Inl TypeError"
| "setProp e MNull k v = Inl TypeError"
| "setProp e (MArr xs props) k v =
     (if isArrayIndex k then
        Inr (MArr (if numericValue k < length xs then xs[numericValue k := Some v]
                   else xs @ replicate (numericValue k - length xs) None @ [Some v]) props)
      else if k = ''length'' then
        (case toLength e v of
           None \<Rightarrow> Inl RangeError
         | Some n \<Rightarrow> Inr (MArr (take n xs @ replicate (n - length xs) None) props))
      else Inr (MArr xs (assign props k v)))"
| "setProp e (MObj props) k v = Inr (MObj (assign props k v))"
| "setProp e x k v = (if strict e then Inl TypeError else Inr x)"









text \<open>A sample engine: sloppy mode, and the lengths that a number or an empty array denotes.\<close>

definition sampleEngine :: engine where
  "sampleEngine =
     \<lparr>strict = False,
      toLength = (\<lambda>v. case v of
                        MNum n \<Rightarrow> if 0 \<le> n \<and> n < 4294967296 then Some (nat n) else None
                      | MArr [] [] \<Rightarrow> Some 0
                      | _ \<Rightarrow> None)\<rparr>"

subsection \<open>The same walk, seen from the root\<close>


definition isPrimitive :: "mval \<Rightarrow> bool" where
  "isPrimitive c = (case c of MArr xs props \<Rightarrow> False | MObj props \<Rightarrow> False | _ \<Rightarrow> True)"






lemma getProp_primitive: "isPrimitive x \<Longrightarrow> getProp x k = Inr c \<Longrightarrow> isPrimitive c"
  by (cases x) (auto simp: isPrimitive_def split: if_splits)


























section \<open>The runtime: setters, batches and recalculation\<close>

text \<open>
  A call of the instance either returns or throws, and in both cases the instance is
  left in some state.
\<close>

datatype 's outcome = Returned 's | Threw error 's

text \<open>
  Listeners and the batching strategy are functions of the user. What matters of them
  here is which calls they make on the instance, in which order; they may look at the
  model to decide. The calls are those of an exported setter, \<^verbatim>\<open>$startBatch\<close> and
  \<^verbatim>\<open>$endBatch\<close>; a strategy that defers (to a timer, say) makes no call now.
\<close>

datatype 'f call = CallSetter 'f | StartBatch | EndBatch

type_synonym 'f callback = "mval \<Rightarrow> 'f call list"

text \<open>
  A log of what the instance did, for an observer: no function below reads it.
\<close>

datatype 'f event = Applied 'f | Recalculated | StrategyInvoked

text \<open>
  The placeholders of the template: \<^verbatim>\<open>func.apply($res, args)\<close> for a queued or
  immediate setter (the type \<open>'f\<close> stands for a function with its arguments), and the
  derivation that \<^verbatim>\<open>/* DERIVED */\<close> and \<^verbatim>\<open>/* RESET */\<close> stand for.
\<close>

record ('f, 'd) template =
  applyFunc :: "'f \<Rightarrow> mval \<Rightarrow> mval outcome"
  derive :: "mval \<Rightarrow> error + 'd"

text \<open>The variables of the closure: \<^verbatim>\<open>$model\<close>, \<^verbatim>\<open>$res\<close>, \<^verbatim>\<open>$listeners\<close>, and the rest.\<close>

record ('f, 'd) inst =
  model :: mval
  res :: "'d option"
  listeners :: "'f callback list"
  inBatch :: bool
  batchPending :: "'f list"
  inRecalculate :: bool
  batchingStrategy :: "'f callback option"
  trace :: "'f event list"

definition startBatch :: "('f, 'd) inst \<Rightarrow> ('f, 'd) inst" where
  "startBatch s = s\<lparr>inBatch := True\<rparr>"

text \<open>
  \<^verbatim>\<open>
  $batchPending.forEach(function (_ref) {
    var func = _ref.func, args = _ref.args;
    func.apply($res, args);
  });
  \<close>
\<close>

fun forEachPending :: "('f, 'd) template \<Rightarrow> 'f list \<Rightarrow> ('f, 'd) inst \<Rightarrow> ('f, 'd) inst outcome" where
  "forEachPending T [] s = Returned s"
| "forEachPending T (func # rest) s =
     (case applyFunc T func (model s) of
        Threw err m \<Rightarrow> Threw err (s\<lparr>model := m\<rparr>)
      | Returned m \<Rightarrow> forEachPending T rest (s\<lparr>model := m, trace := trace s @ [Applied func]\<rparr>))"

text \<open>
  \<^verbatim>\<open>recalculate\<close>, \<^verbatim>\<open>$setter\<close> and \<^verbatim>\<open>$endBatch\<close> call each other, directly and
  through the listeners and the strategy, and a listener that sets on every
  notification keeps them going for ever. The functions take fuel, which
  \<^verbatim>\<open>recalculate\<close> and \<^verbatim>\<open>$setter\<close> use up; \<open>None\<close> is running out of it.
  \<^verbatim>\<open>
  function recalculate() {
    if ($inBatch) { return; }
    $inRecalculate = true;
    /* DERIVED */ /* RESET */
    $listeners.forEach(function(callback) {return callback();});
    $inRecalculate = false;
    if ($batchPending.length) { $res.$endBatch(); }
  }
  function $setter(func, ...args) {
    if ($inBatch || $inRecalculate || $batchingStrategy) {
      $batchPending.push({ func: func, args: args });
      if ((!$inBatch && !$inRecalculate) && $batchingStrategy) {
        $inBatch = true;
        $batchingStrategy.call($res);
      }
    } else {
      func.apply($res, args);
      recalculate();
    }
  }
  $endBatch: function() {
    $inBatch = false;
    if ($batchPending.length) {
      $batchPending.forEach(...);
      $batchPending = [];
      recalculate();
    }
  }
  \<close>
\<close>

function (sequential) recalculate :: "('f, 'd) template \<Rightarrow> nat \<Rightarrow> ('f, 'd) inst \<Rightarrow> ('f, 'd) inst outcome option"
  and forEachListener ::
    "('f, 'd) template \<Rightarrow> nat \<Rightarrow> 'f callback list \<Rightarrow> ('f, 'd) inst \<Rightarrow> ('f, 'd) inst outcome option"
  and runCallback ::
    "('f, 'd) template \<Rightarrow> nat \<Rightarrow> 'f call list \<Rightarrow> ('f, 'd) inst \<Rightarrow> ('f, 'd) inst outcome option"
  and setter :: "('f, 'd) template \<Rightarrow> nat \<Rightarrow> 'f \<Rightarrow> ('f, 'd) inst \<Rightarrow> ('f, 'd) inst outcome option"
  and endBatch :: "('f, 'd) template \<Rightarrow> nat \<Rightarrow> ('f, 'd) inst \<Rightarrow> ('f, 'd) inst outcome option"
where
  "recalculate T 0 s = (if inBatch s then Some (Returned s) else None)"
| "recalculate T (Suc n) s =
     (if inBatch s then Some (Returned s)
      else (let s1 = s\<lparr>inRecalculate := True\<rparr> in
            case derive T (model s1) of
              Inl err \<Rightarrow> Some (Threw err s1)
            | Inr d \<Rightarrow>
               (case forEachListener T n (listeners s1)
                       (s1\<lparr>res := Some d, trace := trace s1 @ [Recalculated]\<rparr>) of
                  None \<Rightarrow> None
                | Some (Threw err s3) \<Rightarrow> Some (Threw err s3)
                | Some (Returned s3) \<Rightarrow>
                    (let s4 = s3\<lparr>inRecalculate := False\<rparr> in
                     if batchPending s4 \<noteq> [] then endBatch T n s4 else Some (Returned s4)))))"
| "forEachListener T n [] s = Some (Returned s)"
| "forEachListener T n (callback # rest) s =
     (case runCallback T n (callback (model s)) s of
        None \<Rightarrow> None
      | Some (Threw err s1) \<Rightarrow> Some (Threw err s1)
      | Some (Returned s1) \<Rightarrow> forEachListener T n rest s1)"
| "runCallback T n [] s = Some (Returned s)"
| "runCallback T n (c # cs) s =
     (case (case c of
              CallSetter func \<Rightarrow> setter T n func s
            | StartBatch \<Rightarrow> Some (Returned (s\<lparr>inBatch := True\<rparr>))
            | EndBatch \<Rightarrow> endBatch T n s) of
        None \<Rightarrow> None
      | Some (Threw err s1) \<Rightarrow> Some (Threw err s1)
      | Some (Returned s1) \<Rightarrow> runCallback T n cs s1)"
| "setter T 0 func s = None"
| "setter T (Suc n) func s =
     (if inBatch s \<or> inRecalculate s \<or> batchingStrategy s \<noteq> None then
        (let s1 = s\<lparr>batchPending := batchPending s @ [func]\<rparr> in
         if (\<not> inBatch s \<and> \<not> inRecalculate s) \<and> batchingStrategy s \<noteq> None then
           (case batchingStrategy s of
              None \<Rightarrow> Some (Returned s1)
            | Some strategy \<Rightarrow>
                runCallback T n (strategy (model s1))
                  (s1\<lparr>inBatch := True, trace := trace s1 @ [StrategyInvoked]\<rparr>))
         else Some (Returned s1))
      else (case applyFunc T func (model s) of
              Threw err m \<Rightarrow> Some (Threw err (s\<lparr>model := m\<rparr>))
            | Returned m \<Rightarrow> recalculate T n (s\<lparr>model := m, trace := trace s @ [Applied func]\<rparr>)))"
| "endBatch T n s =
     (let s1 = s\<lparr>inBatch := False\<rparr> in
      if batchPending s1 \<noteq> [] then
        (case forEachPending T (batchPending s1) s1 of
           Threw err s2 \<Rightarrow> Some (Threw err s2)
         | Returned s2 \<Rightarrow> recalculate T n (s2\<lparr>batchPending := []\<rparr>))
      else Some (Returned s1))"


  by pat_completeness auto
termination
  by (relation "inv_image (less_than <*lex*> less_than <*lex*> less_than)
        (\<lambda>x. case x of
           Inl (Inl (T, n, s)) \<Rightarrow> (n, 0, 0)
         | Inl (Inr (T, n, cbs, s)) \<Rightarrow> (n, 4, length cbs)
         | Inr (Inl (T, n, cs, s)) \<Rightarrow> (n, 3, length cs)
         | Inr (Inr (Inl (T, n, f, s))) \<Rightarrow> (n, 1, 0)
         | Inr (Inr (Inr (T, n, s))) \<Rightarrow> (n, 2, 0))") auto

lemma forEachPending_trace:
  "forEachPending T fs s = Returned s2 \<Longrightarrow>
     trace s2 = trace s @ map Applied fs \<and> inBatch s2 = inBatch s \<and> batchPending s2 = batchPending s
     \<and> inRecalculate s2 = inRecalculate s \<and> listeners s2 = listeners s
     \<and> batchingStrategy s2 = batchingStrategy s \<and> res s2 = res s"
proof (induction fs arbitrary: s)
  case Nil
  then show ?case by simp
next
  case (Cons f fs)
  from Cons.prems obtain m where m: "applyFunc T f (model s) = Returned m"
    and r: "forEachPending T fs (s\<lparr>model := m, trace := trace s @ [Applied f]\<rparr>) = Returned s2"
    by (auto split: outcome.splits)
  from Cons.IH [OF r] show ?case by simp
qed

lemma forEachListener_quiet:
  "list_all (\<lambda>callback. callback (model s) = []) cbs \<Longrightarrow> forEachListener T n cbs s = Some (Returned s)"
  by (induction cbs) simp_all

subsection \<open>A sample instance\<close>

text \<open>
  Sample setter functions assign a value to a key of the model; the sample derivation
  is the model itself. The summary of a call that returned lists the model, the two
  flags, the queue and the log.
\<close>

definition sampleTemplate :: "(string \<times> mval, mval) template" where
  "sampleTemplate =
     \<lparr>applyFunc = (\<lambda>func m. case setProp sampleEngine m (fst func) (snd func) of
                                Inl err \<Rightarrow> Threw err m
                              | Inr m' \<Rightarrow> Returned m'),
      derive = (\<lambda>m. Inr m)\<rparr>"

definition sampleInst :: "(string \<times> mval, mval) inst" where
  "sampleInst =
     \<lparr>model = MObj [], res = Some (MObj []), listeners = [], inBatch = False, batchPending = [],
      inRecalculate = False, batchingStrategy = None, trace = []\<rparr>"

definition sampleListener :: "(string \<times> mval) callback" where
  "sampleListener m =
     (if getProp m ''a'' = Inr (MNum 1) \<and> getProp m ''b'' = Inr MUndefined
      then [CallSetter (''b'', MNum 2)] else [])"

definition sampleStrategy :: "(string \<times> mval) callback" where
  "sampleStrategy m = [EndBatch]"

definition summary ::
    "('f, 'd) inst outcome option \<Rightarrow> (mval \<times> bool \<times> bool \<times> 'f list \<times> 'f event list) option" where
  "summary r =
     (case r of
        Some (Returned s) \<Rightarrow> Some (model s, inBatch s, inRecalculate s, batchPending s, trace s)
      | _ \<Rightarrow> None)"

subsection \<open>\<^verbatim>\<open>$endBatch\<close>\<close>

text \<open>
  C5, as stated, fails on the empty queue: after \<^verbatim>\<open>$startBatch\<close>, \<^verbatim>\<open>$endBatch\<close> clears
  the flag and returns, and nothing is recomputed (the log stays empty).
\<close>

theorem endBatch_empty_queue_counterexample:
  "batchPending (startBatch sampleInst) = []
   \<and> summary (endBatch sampleTemplate 3 (startBatch sampleInst)) = Some (MObj [], False, False, [], [])"
  by code_simp

text \<open>
  C5, amended: \<^verbatim>\<open>$endBatch\<close> clears \<^verbatim>\<open>inBatch\<close>. On an empty queue it does nothing
  else. On a queue that is not empty it applies each queued setter in the order of the
  queue, empties the queue and then calls \<^verbatim>\<open>recalculate\<close> once; when no listener
  makes a call, that is one recomputation, after which the instance is idle.
\<close>

theorem endBatch_drains_then_recalculates:
  "(batchPending s = [] \<longrightarrow> endBatch T n s = Some (Returned (s\<lparr>inBatch := False\<rparr>)))
   \<and> (batchPending s \<noteq> [] \<and> forEachPending T (batchPending s) (s\<lparr>inBatch := False\<rparr>) = Returned s2 \<longrightarrow>
        trace s2 = trace s @ map Applied (batchPending s) \<and> \<not> inBatch s2
        \<and> endBatch T n s = recalculate T n (s2\<lparr>batchPending := []\<rparr>))
   \<and> (batchPending s \<noteq> [] \<and> forEachPending T (batchPending s) (s\<lparr>inBatch := False\<rparr>) = Returned s2
        \<and> derive T (model s2) = Inr d
        \<and> list_all (\<lambda>callback. callback (model s2) = []) (listeners s) \<longrightarrow>
        endBatch T (Suc n) s =
          Some (Returned (s2\<lparr>batchPending := [], inRecalculate := False, res := Some d,
                              trace := trace s @ map Applied (batchPending s) @ [Recalculated]\<rparr>)))"
proof (intro conjI impI)
  show "endBatch T n s = Some (Returned (s\<lparr>inBatch := False\<rparr>))" if "batchPending s = []"
    using that by simp
next
  assume a: "batchPending s \<noteq> [] \<and> forEachPending T (batchPending s) (s\<lparr>inBatch := False\<rparr>) = Returned s2"
  from forEachPending_trace [of T "batchPending s" "s\<lparr>inBatch := False\<rparr>" s2] a
  show "trace s2 = trace s @ map Applied (batchPending s)" "\<not> inBatch s2" by simp_all
  from a show "endBatch T n s = recalculate T n (s2\<lparr>batchPending := []\<rparr>)" by simp
next
  assume a: "batchPending s \<noteq> [] \<and> forEachPending T (batchPending s) (s\<lparr>inBatch := False\<rparr>) = Returned s2
        \<and> derive T (model s2) = Inr d
        \<and> list_all (\<lambda>callback. callback (model s2) = []) (listeners s)"
  note p = forEachPending_trace [of T "batchPending s" "s\<lparr>inBatch := False\<rparr>" s2]
  from a p have tr: "trace s2 = trace s @ map Applied (batchPending s)" and nb: "\<not> inBatch s2"
    and ls: "listeners s2 = listeners s" by simp_all
  let ?s3 = "s2\<lparr>batchPending := [], inRecalculate := True, res := Some d,
                 trace := trace s2 @ [Recalculated]\<rparr>"
  have q: "forEachListener T n (listeners s2) ?s3 = Some (Returned ?s3)"
    by (rule forEachListener_quiet) (use a ls in simp)
  have "endBatch T (Suc n) s = recalculate T (Suc n) (s2\<lparr>batchPending := []\<rparr>)"
    using a by simp
  also have "\<dots> = Some (Returned (?s3\<lparr>inRecalculate := False\<rparr>))"
    using a nb q by (simp add: Let_def)
  finally show "endBatch T (Suc n) s =
          Some (Returned (s2\<lparr>batchPending := [], inRecalculate := False, res := Some d,
                              trace := trace s @ map Applied (batchPending s) @ [Recalculated]\<rparr>))"
    by (simp add: tr)
qed

theorem endBatch_drains_then_recalculates_witness:
  "batchPending (sampleInst\<lparr>inBatch := True, batchPending := [(''a'', MNum 1), (''b'', MNum 2)]\<rparr>) \<noteq> []
   \<and> summary (endBatch sampleTemplate 1
        (sampleInst\<lparr>inBatch := True, batchPending := [(''a'', MNum 1), (''b'', MNum 2)]\<rparr>))
      = Some (MObj [(''a'', MNum 1), (''b'', MNum 2)], False, False, [],
              [Applied (''a'', MNum 1), Applied (''b'', MNum 2), Recalculated])"
proof -
  let ?q = "[(''a'', MNum 1), (''b'', MNum 2)]"
  let ?s = "sampleInst\<lparr>inBatch := True, batchPending := ?q\<rparr>"
  let ?m = "MObj [(''a'', MNum 1), (''b'', MNum 2)]"
  let ?s2 = "?s\<lparr>inBatch := False, model := ?m, trace := [Applied (''a'', MNum 1), Applied (''b'', MNum 2)]\<rparr>"
  have ne: "batchPending ?s \<noteq> []" by simp
  have fp: "forEachPending sampleTemplate (batchPending ?s) (?s\<lparr>inBatch := False\<rparr>) = Returned ?s2"
    by (simp add: sampleTemplate_def sampleInst_def sampleEngine_def)
  have d: "derive sampleTemplate (model ?s2) = Inr ?m" by (simp add: sampleTemplate_def)
  have q: "list_all (\<lambda>callback. callback (model ?s2) = []) (listeners ?s)"
    by (simp add: sampleInst_def)
  from endBatch_drains_then_recalculates [of ?s sampleTemplate 0 ?s2 ?m] ne fp d q
  have "endBatch sampleTemplate (Suc 0) ?s =
          Some (Returned (?s2\<lparr>batchPending := [], inRecalculate := False, res := Some ?m,
                              trace := trace ?s @ map Applied (batchPending ?s) @ [Recalculated]\<rparr>))"
    by blast
  then have "summary (endBatch sampleTemplate 1 ?s)
      = Some (?m, False, False, [], [Applied (''a'', MNum 1), Applied (''b'', MNum 2), Recalculated])"
    by (simp add: summary_def sampleInst_def)
  with ne show ?thesis by blast
qed

subsection \<open>\<^verbatim>\<open>$setter\<close>\<close>

text \<open>
  C6, as stated, fails where it says that the strategy is invoked outside an ongoing
  batch. While the instance recalculates, with no batch open and a strategy installed, a
  setter call is queued and the strategy is not invoked. The first conjunct is that
  state; the second is a whole run from the idle instance: the strategy ends the batch
  at once, the listener sets \<open>b\<close> when it sees \<open>a\<close>, and the log has one invocation of
  the strategy for the two setter calls.
\<close>

theorem setter_in_recalculation_counterexample:
  "summary (setter sampleTemplate 3 (''b'', MNum 2)
      (sampleInst\<lparr>inRecalculate := True, batchingStrategy := Some sampleStrategy\<rparr>))
     = Some (MObj [], False, True, [(''b'', MNum 2)], [])
   \<and> summary (setter sampleTemplate 10 (''a'', MNum 1)
      (sampleInst\<lparr>listeners := [sampleListener], batchingStrategy := Some sampleStrategy\<rparr>))
     = Some (MObj [(''a'', MNum 1), (''b'', MNum 2)], False, False, [],
             [StrategyInvoked, Applied (''a'', MNum 1), Recalculated,
              Applied (''b'', MNum 2), Recalculated])"
  by code_simp

text \<open>
  C6, amended: a setter call is queued when a batch is open, when the instance
  recalculates or when a strategy is installed. If no batch is open and the instance
  does not recalculate (so a strategy is installed), \<^verbatim>\<open>inBatch\<close> is set and the
  strategy is invoked; during a batch or a recalculation the call is only queued.
  Otherwise the function is applied to the model at once and \<^verbatim>\<open>recalculate\<close> runs;
  when no listener makes a call, the instance is idle again after one recomputation.
\<close>

theorem setter_enqueues_or_applies:
  "(inBatch s \<or> inRecalculate s \<longrightarrow>
      setter T (Suc n) func s = Some (Returned (s\<lparr>batchPending := batchPending s @ [func]\<rparr>)))
   \<and> (\<not> inBatch s \<and> \<not> inRecalculate s \<and> batchingStrategy s = Some strategy \<longrightarrow>
      setter T (Suc n) func s =
        runCallback T n (strategy (model s))
          (s\<lparr>batchPending := batchPending s @ [func], inBatch := True,
             trace := trace s @ [StrategyInvoked]\<rparr>))
   \<and> (\<not> inBatch s \<and> \<not> inRecalculate s \<and> batchingStrategy s = None
        \<and> applyFunc T func (model s) = Returned m \<longrightarrow>
      setter T (Suc n) func s = recalculate T n (s\<lparr>model := m, trace := trace s @ [Applied func]\<rparr>))
   \<and> (\<not> inBatch s \<and> \<not> inRecalculate s \<and> batchingStrategy s = None
        \<and> applyFunc T func (model s) = Returned m \<and> derive T m = Inr d
        \<and> list_all (\<lambda>callback. callback m = []) (listeners s) \<and> batchPending s = [] \<longrightarrow>
      setter T (Suc (Suc n)) func s =
        Some (Returned (s\<lparr>model := m, inRecalculate := False, res := Some d,
                          trace := trace s @ [Applied func, Recalculated]\<rparr>)))"
proof (intro conjI impI)
  show "setter T (Suc n) func s = Some (Returned (s\<lparr>batchPending := batchPending s @ [func]\<rparr>))"
    if "inBatch s \<or> inRecalculate s"
    using that by (auto simp: Let_def)
  show "setter T (Suc n) func s =
        runCallback T n (strategy (model s))
          (s\<lparr>batchPending := batchPending s @ [func], inBatch := True,
             trace := trace s @ [StrategyInvoked]\<rparr>)"
    if "\<not> inBatch s \<and> \<not> inRecalculate s \<and> batchingStrategy s = Some strategy"
    using that by (simp add: Let_def)
  show "setter T (Suc n) func s = recalculate T n (s\<lparr>model := m, trace := trace s @ [Applied func]\<rparr>)"
    if "\<not> inBatch s \<and> \<not> inRecalculate s \<and> batchingStrategy s = None
        \<and> applyFunc T func (model s) = Returned m"
    using that by simp
next
  assume a: "\<not> inBatch s \<and> \<not> inRecalculate s \<and> batchingStrategy s = None
        \<and> applyFunc T func (model s) = Returned m \<and> derive T m = Inr d
        \<and> list_all (\<lambda>callback. callback m = []) (listeners s) \<and> batchPending s = []"
  let ?s1 = "s\<lparr>model := m, trace := trace s @ [Applied func]\<rparr>"
  let ?s3 = "?s1\<lparr>inRecalculate := True, res := Some d, trace := trace ?s1 @ [Recalculated]\<rparr>"
  have q: "forEachListener T n (listeners ?s1) ?s3 = Some (Returned ?s3)"
    by (rule forEachListener_quiet) (use a in simp)
  have "setter T (Suc (Suc n)) func s = recalculate T (Suc n) ?s1" using a by simp
  also have "\<dots> = Some (Returned (?s3\<lparr>inRecalculate := False\<rparr>))"
    using a q by (simp add: Let_def)
  finally show "setter T (Suc (Suc n)) func s =
        Some (Returned (s\<lparr>model := m, inRecalculate := False, res := Some d,
                          trace := trace s @ [Applied func, Recalculated]\<rparr>))"
    by simp
qed

theorem setter_enqueues_or_applies_witness:
  "inBatch (startBatch sampleInst)
   \<and> summary (setter sampleTemplate 1 (''a'', MNum 1) (startBatch sampleInst))
      = Some (MObj [], True, False, [(''a'', MNum 1)], [])
   \<and> \<not> inBatch sampleInst \<and> \<not> inRecalculate sampleInst \<and> batchingStrategy sampleInst = None
   \<and> summary (setter sampleTemplate 2 (''a'', MNum 1) sampleInst)
      = Some (MObj [(''a'', MNum 1)], False, False, [], [Applied (''a'', MNum 1), Recalculated])"
proof -
  let ?f = "(''a'', MNum 1)"
  let ?m = "MObj [(''a'', MNum 1)]"
  have b: "inBatch (startBatch sampleInst) \<or> inRecalculate (startBatch sampleInst)"
    by (simp add: startBatch_def)
  from setter_enqueues_or_applies [of "startBatch sampleInst" sampleTemplate 0 ?f] b
  have "setter sampleTemplate (Suc 0) ?f (startBatch sampleInst)
          = Some (Returned ((startBatch sampleInst)\<lparr>batchPending := batchPending (startBatch sampleInst) @ [?f]\<rparr>))"
    by blast
  then have r1: "summary (setter sampleTemplate 1 ?f (startBatch sampleInst))
      = Some (MObj [], True, False, [?f], [])"
    by (simp add: summary_def startBatch_def sampleInst_def)
  have idle: "\<not> inBatch sampleInst \<and> \<not> inRecalculate sampleInst \<and> batchingStrategy sampleInst = None"
    by (simp add: sampleInst_def)
  have ap: "applyFunc sampleTemplate ?f (model sampleInst) = Returned ?m"
    by (simp add: sampleTemplate_def sampleInst_def sampleEngine_def)
  have d: "derive sampleTemplate ?m = Inr ?m" by (simp add: sampleTemplate_def)
  have q: "list_all (\<lambda>callback. callback ?m = []) (listeners sampleInst) \<and> batchPending sampleInst = []"
    by (simp add: sampleInst_def)
  from setter_enqueues_or_applies [of sampleInst sampleTemplate 0 ?f sampleStrategy ?m ?m] idle ap d q
  have "setter sampleTemplate (Suc (Suc 0)) ?f sampleInst =
        Some (Returned (sampleInst\<lparr>model := ?m, inRecalculate := False, res := Some ?m,
                          trace := trace sampleInst @ [Applied ?f, Recalculated]\<rparr>))"
    by blast
  then have r2: "summary (setter sampleTemplate 2 ?f sampleInst)
      = Some (?m, False, False, [], [Applied ?f, Recalculated])"
    by (simp add: summary_def sampleInst_def numeral_2_eq_2)
  from b r1 idle r2 show ?thesis by (simp add: startBatch_def)
qed

section \<open>The runtime: the recursive maps\<close>



text \<open>
  The two objects that \<^verbatim>\<open>loopFunction\<close> mutates, \<^verbatim>\<open>resolved\<close> and \<^verbatim>\<open>res\<close>, and three logs
  for an observer, which no function below reads to decide anything: the keys for which
  the function of the user was invoked, in the order of the invocations; the keys whose
  invocation has not been assigned to \<^verbatim>\<open>res\<close> yet, innermost first; and for every call of
  \<^verbatim>\<open>loopFunction\<close> that returned, the key, whether the key was being computed when the
  call was made, and the value returned. As in the rest of the runtime model, a read at
  a key sees own properties only: a key that names a member which every object or array
  inherits is read here as any other key.
\<close>

record loopState =
  resolved :: mval
  res :: mval
  invoked :: "string list"
  computing :: "string list"
  answers :: "(string \<times> bool \<times> mval) list"











subsection \<open>Two sample sources\<close>







subsection \<open>An array index is determined by its number\<close>







subsection \<open>Reads and writes at different keys\<close>

















subsection \<open>What every call of \<^verbatim>\<open>loopFunction\<close> preserves\<close>

















end
